theory Spec2Isabelle
  imports Main "HOL-Library.Word" "HOL-Library.Sublist"
begin

unbundle bit_operations_syntax

section \<open>The finite state machine engine of lwIoT (fsm\_base.h)\<close>

text \<open>
  The development embeds \<^verbatim>\<open>lwiot::detail_fsm::FsmBase\<close> and its collaborators
  \<^verbatim>\<open>State\<close>, \<^verbatim>\<open>Transition\<close> and \<^verbatim>\<open>SttIndex\<close>. Every member function becomes a function
  from the engine before the call to the value returned and the engine after it. The
  engine's mutex is recursive and every operation holds it from entry to exit, so the
  operations are modelled one at a time and the lock itself is left out; log records are
  diagnostics only and are left out as well.
\<close>

subsection \<open>Failures\<close>

text \<open>
  The ways in which the C++ stops instead of returning: \<^verbatim>\<open>ReferenceWrapper::operator->\<close>
  asserts that the reference is set, a null \<^verbatim>\<open>SharedPointer\<close> is dereferenced, \<^verbatim>\<open>Map::at\<close>
  is asked for a key the map does not hold, or an empty \<^verbatim>\<open>Function\<close> is called.
\<close>

datatype crash = NullReference | NullPointer | KeyNotFound | EmptyFunction

subsection \<open>Identifiers, events and the table index\<close>

type_synonym FsmStateId = "32 word"

text \<open>
  The event type \<^verbatim>\<open>P::FsmEvent\<close> is chosen by the policy, which is not part of the sources;
  the engine only asserts that it is integral and convertible to bool. It is taken to be an
  unsigned 32-bit integer, the widest type that shares the 64-bit \<^verbatim>\<open>SttIndex\<close> union with a
  state id.
\<close>

type_synonym FsmEvent = "32 word"

text \<open>
  \<^verbatim>\<open>SttIndex\<close> is a union of a 64-bit integer with the pair (stateId, eventId); it is
  initialised with \<^verbatim>\<open>0ULL\<close> and both members are then assigned. Read as an integer the state
  id is the low half and the event the high half.
\<close>

definition SttIndex :: "FsmStateId \<Rightarrow> FsmEvent \<Rightarrow> 64 word" where
  "SttIndex stateId eventId = (ucast stateId) OR (push_bit 32 (ucast eventId))"

subsection \<open>FsmStatus\<close>

datatype FsmStatus = StateUnchanged | StateChanged | Fault | Error | Stopped | Running

subsection \<open>Transition\<close>

text \<open>
  The argument pack \<^verbatim>\<open>Args...\<close> of a handler is one value of type \<^typ>\<open>'a\<close> (the
  \<^verbatim>\<open>ArgumentWrapper\<close> tuple). A \<^verbatim>\<open>Function\<close> object is \<^term>\<open>None\<close> when it is empty.
\<close>

record 'a Transition =
  m_handler :: "('a \<Rightarrow> bool) option"
  m_event :: FsmEvent
  m_next :: FsmStateId

definition Transition_ctor :: "FsmEvent \<Rightarrow> FsmStateId \<Rightarrow> 'a Transition" where
  "Transition_ctor event next = \<lparr>m_handler = None, m_event = event, m_next = next\<rparr>"

definition Transition_ctor_guard ::
  "FsmEvent \<Rightarrow> FsmStateId \<Rightarrow> ('a \<Rightarrow> bool) \<Rightarrow> 'a Transition" where
  "Transition_ctor_guard event next handler =
     \<lparr>m_handler = Some handler, m_event = event, m_next = next\<rparr>"

definition hasGuard :: "'a Transition \<Rightarrow> bool" where
  "hasGuard t = (m_handler t \<noteq> None)"

subsection \<open>State\<close>

text \<open>
  A state handler is a \<^verbatim>\<open>Function<R(Args...)>\<close> with \<^verbatim>\<open>R\<close> either bool or void: code of the
  user that runs inside the step, under the engine's recursive lock. It receives the
  argument pack by rvalue reference, so it may change it or move from it, and it may call
  back into the engine; \<^verbatim>\<open>transition\<close> is documented as the call a handler makes, \<^verbatim>\<open>raise\<close>
  as the call of everyone else. What a handler does once it has its arguments is a value of
  the type below: it returns, with its result (true for a void handler) and the argument
  pack as it leaves it, or it calls \<^verbatim>\<open>transition\<close> or \<^verbatim>\<open>raise\<close> with an event and arguments and
  goes on according to the answer.
\<close>

datatype 'a HandlerBody =
    Return bool 'a
  | CallTransition FsmEvent 'a "bool \<Rightarrow> 'a HandlerBody"
  | CallRaise FsmEvent 'a "bool \<Rightarrow> 'a HandlerBody"

record 'a State =
  m_id :: FsmStateId
  m_parent :: FsmStateId
  m_action :: "('a \<Rightarrow> 'a HandlerBody) option"

definition hasAction :: "'a State \<Rightarrow> bool" where
  "hasAction s = (m_action s \<noteq> None)"

definition hasParent :: "'a State \<Rightarrow> bool" where
  "hasParent s = (m_parent s \<noteq> 0)"

text \<open>
  \<^verbatim>\<open>State::generateFsmStateId\<close>. The random source \<^verbatim>\<open>lwiot::random\<close> and the macro
  \<^verbatim>\<open>BITS_PER_BYTE\<close> are not part of the sources. The source is a parameter: \<^term>\<open>rnd num\<close>
  is the outcome of the call made in iteration \<^term>\<open>num\<close> of the loop, as an unsigned
  32-bit value. \<^verbatim>\<open>sizeof(FsmStateIdType)\<close> is 4 for \<^verbatim>\<open>uint32_t\<close>.
\<close>

definition BITS_PER_BYTE :: nat where
  "BITS_PER_BYTE = 8"

definition sizeof_FsmStateIdType :: nat where
  "sizeof_FsmStateIdType = 4"

function generateFsmStateId_loop :: "(nat \<Rightarrow> 32 word) \<Rightarrow> nat \<Rightarrow> FsmStateId \<Rightarrow> FsmStateId" where
  "generateFsmStateId_loop rnd num result =
     (if num < sizeof_FsmStateIdType then
        (let r = rnd num;
             r = r mod (push_bit BITS_PER_BYTE 1)
         in generateFsmStateId_loop rnd (num + 1) (result OR (push_bit (num * BITS_PER_BYTE) r)))
      else result)"
  by pat_completeness auto
termination
  by (relation "measure (\<lambda>(rnd, num, result). sizeof_FsmStateIdType - num)") auto

definition generateFsmStateId :: "(nat \<Rightarrow> 32 word) \<Rightarrow> FsmStateId" where
  "generateFsmStateId rnd = generateFsmStateId_loop rnd 0 0"

definition State_ctor :: "(nat \<Rightarrow> 32 word) \<Rightarrow> 'a State" where
  "State_ctor rnd = \<lparr>m_id = generateFsmStateId rnd, m_parent = 0, m_action = None\<rparr>"

definition State_ctor_parent :: "(nat \<Rightarrow> 32 word) \<Rightarrow> FsmStateId \<Rightarrow> 'a State" where
  "State_ctor_parent rnd parent =
     \<lparr>m_id = generateFsmStateId rnd, m_parent = parent, m_action = None\<rparr>"

definition setId :: "FsmStateId \<Rightarrow> 'a State \<Rightarrow> 'a State" where
  "setId i s = s\<lparr>m_id := i\<rparr>"

definition setParent :: "FsmStateId \<Rightarrow> 'a State \<Rightarrow> 'a State" where
  "setParent i s = s\<lparr>m_parent := i\<rparr>"

definition setAction :: "('a \<Rightarrow> 'a HandlerBody) \<Rightarrow> 'a State \<Rightarrow> 'a State" where
  "setAction h s = s\<lparr>m_action := Some h\<rparr>"

subsection \<open>The policy's containers\<close>

text \<open>
  Modelled from the spec: the container family of the policy is not part of the sources.
  The spec asks for an ordered mapping with insert-unique \<^verbatim>\<open>emplace\<close>, \<^verbatim>\<open>contains\<close>, \<^verbatim>\<open>at\<close>,
  \<^verbatim>\<open>find\<close> and iteration, an unordered set with \<^verbatim>\<open>insert\<close> and \<^verbatim>\<open>contains\<close>, and a
  double-ended sequence. The mapping is an association list kept in key order, the set a
  list without repetitions in insertion order, the queue and the dynamic array are lists.
\<close>

definition Map_contains :: "('k \<times> 'v) list \<Rightarrow> 'k \<Rightarrow> bool" where
  "Map_contains m k = (map_of m k \<noteq> None)"

definition Map_emplace :: "'k::linorder \<Rightarrow> 'v \<Rightarrow> ('k \<times> 'v) list \<Rightarrow> ('k \<times> 'v) list \<times> bool" where
  "Map_emplace k v m =
     (if Map_contains m k then (m, False) else (insort_key fst (k, v) m, True))"

definition Map_at :: "('k \<times> 'v) list \<Rightarrow> 'k \<Rightarrow> crash + 'v" where
  "Map_at m k = (case map_of m k of None \<Rightarrow> Inl KeyNotFound | Some v \<Rightarrow> Inr v)"

definition Set_contains :: "'e list \<Rightarrow> 'e \<Rightarrow> bool" where
  "Set_contains s e = (e \<in> set s)"

definition Set_insert :: "'e \<Rightarrow> 'e list \<Rightarrow> 'e list \<times> bool" where
  "Set_insert e s = (if e \<in> set s then (s, False) else (s @ [e], True))"

subsection \<open>The engine\<close>

text \<open>
  The fields of \<^verbatim>\<open>FsmBase\<close>. A \<^verbatim>\<open>ReferenceWrapper<StateType>\<close> is \<^term>\<open>None\<close> when unset
  and otherwise the state it refers to: the engine never changes a registered state, so a
  reference and the state's value agree. \<^verbatim>\<open>m_stop_event\<close> counts the signals sent on the
  condition variable and \<^verbatim>\<open>m_watchdog\<close> the resets of the watchdog. The fields
  \<open>invoked\<close> and \<open>consumed\<close> are not members. The first records, oldest first, each
  call of a state handler with the state's id and the arguments it received; the second
  records, oldest first, each record that was removed from the event queue.
\<close>

datatype Visibility = Debug | Info | Critical

record Logger =
  l_subsys :: string
  l_visibility :: Visibility
  l_output :: Visibility

record 'a FsmBase =
  m_watchdog :: nat
  m_events :: "(FsmEvent \<times> 'a) list"
  m_logger :: Logger
  m_stt :: "(64 word \<times> 'a Transition) list"
  m_states :: "(FsmStateId \<times> 'a State) list"
  m_stop_states :: "'a State list"
  m_start_state :: "'a State option"
  m_current :: FsmStateId
  m_error_state :: "'a State option"
  m_status :: FsmStatus
  m_stop_event :: nat
  m_in_transition :: bool
  m_alphabet :: "FsmEvent list"
  m_silent :: bool
  invoked :: "(FsmStateId \<times> 'a) list"
  consumed :: "(FsmEvent \<times> 'a) list"

definition Logger_ctor :: "string \<Rightarrow> Logger" where
  "Logger_ctor name = \<lparr>l_subsys = name, l_visibility = Info, l_output = Info\<rparr>"

text \<open>\<^verbatim>\<open>FsmBase(bool silent, time_t tmo)\<close>; \<^verbatim>\<open>FsmBase(time_t tmo)\<close> is the case silent = false.\<close>

definition FsmBase_ctor :: "bool \<Rightarrow> 'a FsmBase" where
  "FsmBase_ctor silent =
     \<lparr>m_watchdog = 0, m_events = [], m_logger = Logger_ctor ''fsm'', m_stt = [],
      m_states = [], m_stop_states = [], m_start_state = None, m_current = 0,
      m_error_state = None, m_status = Stopped, m_stop_event = 0, m_in_transition = False,
      m_alphabet = [], m_silent = silent, invoked = [], consumed = []\<rparr>"

definition running :: "'a FsmBase \<Rightarrow> bool" where
  "running fsm = (m_status fsm = Running)"

definition status :: "'a FsmBase \<Rightarrow> FsmStatus" where
  "status fsm = m_status fsm"

definition halt :: "'a FsmBase \<Rightarrow> 'a FsmBase" where
  "halt fsm = (if \<not> running fsm then fsm else fsm\<lparr>m_status := Stopped\<rparr>)"

subsection \<open>The transition table\<close>

text \<open>
  \<^verbatim>\<open>FsmBase::lookup\<close> returns a pair of a reference to the row and a flag; the reference
  is set exactly when the flag is true, so the pair is an option. On a miss the search goes
  on in the parent, which is fetched with \<^verbatim>\<open>m_states.at\<close>. Nothing in the source bounds the
  climb: on a cyclic parent chain without a row it does not return, which is the value
  \<^term>\<open>None\<close> of the outer option here. The function reads the members \<^verbatim>\<open>m_stt\<close> and
  \<^verbatim>\<open>m_states\<close> only, which are its first two arguments.
\<close>

partial_function (option) lookup ::
  "(64 word \<times> 'a Transition) list \<Rightarrow> (FsmStateId \<times> 'a State) list \<Rightarrow> 'a State \<Rightarrow> FsmEvent
     \<Rightarrow> (crash + 'a Transition option) option" where
  "lookup stt states state event =
     (case map_of stt (SttIndex (m_id state) event) of
        Some result \<Rightarrow> Some (Inr (Some result))
      | None \<Rightarrow>
          if \<not> hasParent state then Some (Inr None)
          else (case Map_at states (m_parent state) of
                  Inl c \<Rightarrow> Some (Inl c)
                | Inr parent \<Rightarrow> lookup stt states parent event))"

text \<open>The do-while loop of \<^verbatim>\<open>FsmBase::accept\<close>, from the state it has reached.\<close>

partial_function (option) accept_loop ::
  "(64 word \<times> 'a Transition) list \<Rightarrow> (FsmStateId \<times> 'a State) list \<Rightarrow> 'a State \<Rightarrow> FsmEvent
     \<Rightarrow> (crash + bool) option" where
  "accept_loop stt states state event =
     (case map_of stt (SttIndex (m_id state) event) of
        Some row \<Rightarrow> Some (Inr True)
      | None \<Rightarrow>
          if m_parent state = 0 then Some (Inr False)
          else (case Map_at states (m_parent state) of
                  Inl c \<Rightarrow> Some (Inl c)
                | Inr parent \<Rightarrow> accept_loop stt states parent event))"

text \<open>
  \<^verbatim>\<open>FsmBase::accept\<close>. It returns false when the engine is not running; otherwise
  \<^verbatim>\<open>current()\<close> is \<^verbatim>\<open>m_states.at(m_current)\<close>.
\<close>

definition accept :: "FsmEvent \<Rightarrow> 'a FsmBase \<Rightarrow> (crash + bool) option" where
  "accept event fsm =
     (if \<not> running fsm then Some (Inr False)
      else (case Map_at (m_states fsm) (m_current fsm) of
              Inl c \<Rightarrow> Some (Inl c)
            | Inr state \<Rightarrow> accept_loop (m_stt fsm) (m_states fsm) state event))"

subsection \<open>Validation\<close>

text \<open>
  \<^verbatim>\<open>FsmBase::deterministic\<close>: the inner loop over the alphabet for one state, with the
  symbols still to visit and the set \<^verbatim>\<open>accepts\<close>; the result \<^term>\<open>True\<close> of the inner loop
  means that it ran to its end. The outer loop visits the states in the order of the map.
\<close>

fun deterministic_symbols ::
  "'a FsmBase \<Rightarrow> 'a State \<Rightarrow> FsmEvent list \<Rightarrow> FsmEvent list \<Rightarrow> (crash + bool) option" where
  "deterministic_symbols fsm state [] accepts = Some (Inr True)"
| "deterministic_symbols fsm state (symbol # symbols) accepts =
     (case lookup (m_stt fsm) (m_states fsm) state symbol of
        None \<Rightarrow> None
      | Some (Inl c) \<Rightarrow> Some (Inl c)
      | Some (Inr result) \<Rightarrow>
          if result = None \<and> hasAction state then Some (Inr False)
          else (case Set_insert symbol accepts of
                  (accepts', second) \<Rightarrow>
                    if \<not> second then Some (Inr False)
                    else deterministic_symbols fsm state symbols accepts'))"

fun deterministic_states ::
  "'a FsmBase \<Rightarrow> (FsmStateId \<times> 'a State) list \<Rightarrow> (crash + bool) option" where
  "deterministic_states fsm [] = Some (Inr True)"
| "deterministic_states fsm ((key, state) # states) =
     (case deterministic_symbols fsm state (m_alphabet fsm) [] of
        Some (Inr True) \<Rightarrow> deterministic_states fsm states
      | r \<Rightarrow> r)"

definition deterministic :: "'a FsmBase \<Rightarrow> (crash + bool) option" where
  "deterministic fsm = deterministic_states fsm (m_states fsm)"

definition valid :: "'a FsmBase \<Rightarrow> (crash + bool) option" where
  "valid fsm =
     (if \<not> (m_status fsm = Running \<or> m_status fsm = Stopped) then Some (Inr False)
      else if length (m_states fsm) = 0 then Some (Inr False)
      else if m_start_state fsm = None \<or> length (m_stop_states fsm) = 0 then Some (Inr False)
      else if m_error_state fsm = None then Some (Inr False)
      else deterministic fsm)"

text \<open>
  \<^verbatim>\<open>FsmBase::start\<close>. \<^verbatim>\<open>valid()\<close> is only called when \<^verbatim>\<open>check\<close> is set;
  \<^verbatim>\<open>m_start_state->id()\<close> asserts that the start state is set.
\<close>

definition start :: "bool \<Rightarrow> 'a FsmBase \<Rightarrow> (crash + 'a FsmBase) option" where
  "start check fsm =
     (case (if check then valid fsm else Some (Inr True)) of
        None \<Rightarrow> None
      | Some (Inl c) \<Rightarrow> Some (Inl c)
      | Some (Inr ok) \<Rightarrow>
          if check \<and> \<not> ok then Some (Inr fsm)
          else (case m_start_state fsm of
                  None \<Rightarrow> Some (Inl NullReference)
                | Some s \<Rightarrow> Some (Inr (fsm\<lparr>m_current := m_id s, m_status := Running\<rparr>))))"

subsection \<open>Builder methods\<close>

definition addAlphabetSymbol :: "FsmEvent \<Rightarrow> 'a FsmBase \<Rightarrow> bool \<times> 'a FsmBase" where
  "addAlphabetSymbol event fsm =
     (case Set_insert event (m_alphabet fsm) of
        (alphabet, second) \<Rightarrow> (second, fsm\<lparr>m_alphabet := alphabet\<rparr>))"

definition updateAlphabet :: "'a Transition \<Rightarrow> 'a FsmBase \<Rightarrow> 'a FsmBase" where
  "updateAlphabet transition fsm =
     (if Set_contains (m_alphabet fsm) (m_event transition) then fsm
      else fsm\<lparr>m_alphabet := fst (Set_insert (m_event transition) (m_alphabet fsm))\<rparr>)"

text \<open>
  \<^verbatim>\<open>FsmBase::addTransition(state, transition)\<close>; the variadic overload builds the transition
  from its constructor arguments and then does the same.
\<close>

definition addTransition :: "FsmStateId \<Rightarrow> 'a Transition \<Rightarrow> 'a FsmBase \<Rightarrow> bool \<times> 'a FsmBase" where
  "addTransition state transition fsm =
     (let index = SttIndex state (m_event transition);
          fsm1 = updateAlphabet transition fsm
      in case Map_emplace index transition (m_stt fsm1) of
           (stt, second) \<Rightarrow> (second, fsm1\<lparr>m_stt := stt\<rparr>))"

definition addState :: "'a State \<Rightarrow> 'a FsmBase \<Rightarrow> (FsmStateId \<times> bool) \<times> 'a FsmBase" where
  "addState state fsm =
     (let sid = m_id state in
      if Map_contains (m_states fsm) sid then ((sid, False), fsm)
      else (case Map_emplace sid state (m_states fsm) of
              (states, second) \<Rightarrow> ((sid, second), fsm\<lparr>m_states := states\<rparr>)))"

fun addStates :: "'a State list \<Rightarrow> 'a FsmBase \<Rightarrow> bool \<times> 'a FsmBase" where
  "addStates [] fsm = (True, fsm)"
| "addStates (state # states) fsm =
     (let sid = m_id state in
      if Map_contains (m_states fsm) sid then (False, fsm)
      else (case Map_emplace sid state (m_states fsm) of
              (states', second) \<Rightarrow>
                if \<not> second then (False, fsm\<lparr>m_states := states'\<rparr>)
                else addStates states (fsm\<lparr>m_states := states'\<rparr>)))"

definition setStartState :: "FsmStateId \<Rightarrow> 'a FsmBase \<Rightarrow> crash + 'a FsmBase" where
  "setStartState sid fsm =
     (if \<not> Map_contains (m_states fsm) sid then Inr fsm
      else (case Map_at (m_states fsm) sid of
              Inl c \<Rightarrow> Inl c
            | Inr ptr \<Rightarrow> Inr (fsm\<lparr>m_start_state := Some ptr\<rparr>)))"

definition setErrorState :: "FsmStateId \<Rightarrow> 'a FsmBase \<Rightarrow> crash + bool \<times> 'a FsmBase" where
  "setErrorState sid fsm =
     (if \<not> Map_contains (m_states fsm) sid then Inr (False, fsm)
      else (case Map_at (m_states fsm) sid of
              Inl c \<Rightarrow> Inl c
            | Inr ptr \<Rightarrow> Inr (True, fsm\<lparr>m_error_state := Some ptr\<rparr>)))"

definition addStopState :: "FsmStateId \<Rightarrow> 'a FsmBase \<Rightarrow> crash + bool \<times> 'a FsmBase" where
  "addStopState state fsm =
     (if \<not> Map_contains (m_states fsm) state then Inr (False, fsm)
      else (case Map_at (m_states fsm) state of
              Inl c \<Rightarrow> Inl c
            | Inr ptr \<Rightarrow> Inr (True, fsm\<lparr>m_stop_states := m_stop_states fsm @ [ptr]\<rparr>)))"

text \<open>
  \<^verbatim>\<open>FsmBase::addStopStates\<close> has two loops, which the source asks not to merge: the first
  returns false at an id that is not registered, the second appends.
\<close>

fun addStopStates_check :: "FsmStateId list \<Rightarrow> 'a FsmBase \<Rightarrow> bool" where
  "addStopStates_check [] fsm = True"
| "addStopStates_check (state # states) fsm =
     (if \<not> Map_contains (m_states fsm) state then False else addStopStates_check states fsm)"

fun addStopStates_push :: "FsmStateId list \<Rightarrow> 'a FsmBase \<Rightarrow> crash + 'a FsmBase" where
  "addStopStates_push [] fsm = Inr fsm"
| "addStopStates_push (state # states) fsm =
     (case Map_at (m_states fsm) state of
        Inl c \<Rightarrow> Inl c
      | Inr ptr \<Rightarrow> addStopStates_push states (fsm\<lparr>m_stop_states := m_stop_states fsm @ [ptr]\<rparr>))"

definition addStopStates :: "FsmStateId list \<Rightarrow> 'a FsmBase \<Rightarrow> crash + bool \<times> 'a FsmBase" where
  "addStopStates states fsm =
     (if \<not> addStopStates_check states fsm then Inr (False, fsm)
      else (case addStopStates_push states fsm of
              Inl c \<Rightarrow> Inl c
            | Inr fsm' \<Rightarrow> Inr (True, fsm')))"

subsection \<open>Events\<close>

definition addEvent :: "FsmEvent \<Rightarrow> 'a \<Rightarrow> bool \<Rightarrow> 'a FsmBase \<Rightarrow> 'a FsmBase" where
  "addEvent event args front fsm =
     (let value = (event, args) in
      if front then fsm\<lparr>m_events := value # m_events fsm\<rparr>
      else fsm\<lparr>m_events := m_events fsm @ [value]\<rparr>)"

text \<open>\<^verbatim>\<open>FsmBase::raise\<close>.\<close>

definition raise :: "FsmEvent \<Rightarrow> 'a \<Rightarrow> 'a FsmBase \<Rightarrow> (crash + bool \<times> 'a FsmBase) option" where
  "raise event args fsm =
     (case accept event fsm of
        None \<Rightarrow> None
      | Some (Inl c) \<Rightarrow> Some (Inl c)
      | Some (Inr accepted) \<Rightarrow>
          if \<not> accepted then Some (Inr (False, fsm))
          else Some (Inr (True, addEvent event args False fsm)))"

text \<open>
  \<^verbatim>\<open>FsmBase::transition(event, args...)\<close>, the call a state handler makes; \<^verbatim>\<open>addEvent\<close> is
  called with its default \<^verbatim>\<open>front = true\<close>.
\<close>

definition transition :: "FsmEvent \<Rightarrow> 'a \<Rightarrow> 'a FsmBase \<Rightarrow> (crash + bool \<times> 'a FsmBase) option" where
  "transition event args fsm =
     (case accept event fsm of
        None \<Rightarrow> None
      | Some (Inl c) \<Rightarrow> Some (Inl c)
      | Some (Inr accepted) \<Rightarrow>
          if \<not> accepted \<or> m_in_transition fsm then Some (Inr (False, fsm))
          else Some (Inr (True, (addEvent event args True fsm)\<lparr>m_in_transition := True\<rparr>)))"

subsection \<open>Execution\<close>

fun isStopState_loop :: "'a State list \<Rightarrow> FsmStateId \<Rightarrow> bool" where
  "isStopState_loop [] state = False"
| "isStopState_loop (ref # refs) state =
     (if m_id ref = state then True else isStopState_loop refs state)"

definition isStopState :: "FsmStateId \<Rightarrow> 'a FsmBase \<Rightarrow> bool" where
  "isStopState state fsm = isStopState_loop (m_stop_states fsm) state"

text \<open>
  The run of a handler's body on the engine: each call the body makes is the engine's own
  operation, applied to the engine as it is at that moment, and its answer selects how the
  body goes on. The result is the handler's result, the argument pack as the handler leaves
  it, and the engine after the calls.
\<close>

primrec run_body ::
  "'a HandlerBody \<Rightarrow> 'a FsmBase \<Rightarrow> (crash + bool \<times> 'a \<times> 'a FsmBase) option" where
  "run_body (Return success args_left) fsm = Some (Inr (success, args_left, fsm))"
| "run_body (CallTransition event args continue) fsm =
     (case transition event args fsm of
        None \<Rightarrow> None
      | Some (Inl c) \<Rightarrow> Some (Inl c)
      | Some (Inr (accepted, fsm')) \<Rightarrow> run_body (continue accepted) fsm')"
| "run_body (CallRaise event args continue) fsm =
     (case raise event args fsm of
        None \<Rightarrow> None
      | Some (Inl c) \<Rightarrow> Some (Inl c)
      | Some (Inr (accepted, fsm')) \<Rightarrow> run_body (continue accepted) fsm')"

text \<open>
  \<^verbatim>\<open>State::action\<close> calls \<^verbatim>\<open>m_action\<close> without asking \<^verbatim>\<open>hasAction\<close>; the call is entered in
  \<open>invoked\<close> with the arguments as they are passed.
\<close>

definition action ::
  "'a State \<Rightarrow> 'a \<Rightarrow> 'a FsmBase \<Rightarrow> (crash + bool \<times> 'a \<times> 'a FsmBase) option" where
  "action state args fsm =
     (case m_action state of
        None \<Rightarrow> Some (Inl EmptyFunction)
      | Some handler \<Rightarrow>
          run_body (handler args) (fsm\<lparr>invoked := invoked fsm @ [(m_id state, args)]\<rparr>))"

text \<open>
  \<^verbatim>\<open>FsmBase::toErrorState\<close>. Both uses of \<^verbatim>\<open>m_error_state->\<close> assert that the error state
  is set. The handler runs after the status has become Error; its result and what it
  leaves of the arguments are dropped.
\<close>

definition toErrorState :: "'a \<Rightarrow> 'a FsmBase \<Rightarrow> (crash + 'a FsmBase) option" where
  "toErrorState args fsm =
     (case m_error_state fsm of
        None \<Rightarrow> Some (Inl NullReference)
      | Some error_state \<Rightarrow>
          (let fsm1 = fsm\<lparr>m_current := m_id error_state, m_status := Error\<rparr> in
           case action error_state args fsm1 of
             None \<Rightarrow> None
           | Some (Inl c) \<Rightarrow> Some (Inl c)
           | Some (Inr (unused, args_left, fsm2)) \<Rightarrow> Some (Inr fsm2)))"

text \<open>
  \<^verbatim>\<open>FsmBase::transition(event, args, IndexSequence)\<close>, which executes one event. The
  result of \<^verbatim>\<open>lookup\<close> is used without a look at its flag: \<^verbatim>\<open>transition->next()\<close> asserts
  that the reference is set. \<^verbatim>\<open>m_states[next]\<close> does not test membership; on a miss the
  map's \<^verbatim>\<open>operator[]\<close> yields a null pointer, which \<^verbatim>\<open>state->hasAction()\<close> dereferences.
  The copy of the arguments is taken before the handler is called with the original; the
  error state receives the copy, not what the handler left.
\<close>

definition transition_exec ::
  "FsmEvent \<Rightarrow> 'a \<Rightarrow> 'a FsmBase \<Rightarrow> (crash + FsmStatus \<times> 'a FsmBase) option" where
  "transition_exec event args fsm =
     (let fsm1 = fsm\<lparr>m_watchdog := m_watchdog fsm + 1\<rparr> in
      if \<not> running fsm1 then Some (Inr (m_status fsm1, fsm1))
      else
        (case Map_at (m_states fsm1) (m_current fsm1) of
           Inl c \<Rightarrow> Some (Inl c)
         | Inr state \<Rightarrow>
             (case lookup (m_stt fsm1) (m_states fsm1) state event of
                None \<Rightarrow> None
              | Some (Inl c) \<Rightarrow> Some (Inl c)
              | Some (Inr None) \<Rightarrow> Some (Inl NullReference)
              | Some (Inr (Some row)) \<Rightarrow>
                  (let next = m_next row;
                       fsm2 = fsm1\<lparr>m_current := next\<rparr>
                   in case map_of (m_states fsm2) next of
                        None \<Rightarrow> Some (Inl NullPointer)
                      | Some state' \<Rightarrow>
                          (let args_copy = args in
                           case (if hasAction state' then action state' args fsm2
                                 else Some (Inr (False, args, fsm2))) of
                             None \<Rightarrow> None
                           | Some (Inl c) \<Rightarrow> Some (Inl c)
                           | Some (Inr (success, args_left, fsm3)) \<Rightarrow>
                               if \<not> success then
                                 (case toErrorState args_copy fsm3 of
                                    None \<Rightarrow> None
                                  | Some (Inl c) \<Rightarrow> Some (Inl c)
                                  | Some (Inr fsm4) \<Rightarrow>
                                      Some (Inr (Fault,
                                        fsm4\<lparr>m_stop_event := m_stop_event fsm4 + 1\<rparr>)))
                               else if isStopState next fsm3 then
                                 Some (Inr (StateChanged,
                                   fsm3\<lparr>m_stop_event := m_stop_event fsm3 + 1\<rparr>))
                               else Some (Inr (StateChanged, fsm3)))))))"

text \<open>
  \<^verbatim>\<open>FsmBase::transition()\<close> without arguments, the spec's \<^verbatim>\<open>step()\<close>: it tests the queue,
  removes the front record and only then calls the function above, which is the one that
  asks whether the engine is running.
\<close>

definition transition_step :: "'a FsmBase \<Rightarrow> (crash + FsmStatus \<times> 'a FsmBase) option" where
  "transition_step fsm =
     (if length (m_events fsm) = 0 then Some (Inr (StateUnchanged, fsm))
      else
        (let value = hd (m_events fsm);
             fsm1 = fsm\<lparr>m_events := tl (m_events fsm), consumed := consumed fsm @ [value]\<rparr>
         in case transition_exec (fst value) (snd value) fsm1 of
              None \<Rightarrow> None
            | Some (Inl c) \<Rightarrow> Some (Inl c)
            | Some (Inr (rv, fsm2)) \<Rightarrow> Some (Inr (rv, fsm2\<lparr>m_in_transition := False\<rparr>))))"

subsection \<open>Copy, move and swap\<close>

text \<open>\<^verbatim>\<open>FsmBase::copy\<close>: the assignments of the source, in its order; \<open>this\<close> is the second argument.\<close>

definition copy :: "'a FsmBase \<Rightarrow> 'a FsmBase \<Rightarrow> 'a FsmBase" where
  "copy other this =
     this\<lparr>m_stt := m_stt other,
          m_events := m_events other,
          m_states := m_states other,
          m_stop_states := m_stop_states other,
          m_start_state := m_start_state other,
          m_current := m_current other,
          m_error_state := m_error_state other,
          m_status := m_status other,
          m_in_transition := m_in_transition other,
          m_logger := m_logger other,
          m_silent := m_silent other\<rparr>"

text \<open>The friend \<^verbatim>\<open>swap(a, b)\<close>: the pair of engines after the exchanges of the source.\<close>

definition swap :: "'a FsmBase \<Rightarrow> 'a FsmBase \<Rightarrow> 'a FsmBase \<times> 'a FsmBase" where
  "swap a b =
     (a\<lparr>m_stt := m_stt b, m_events := m_events b, m_states := m_states b,
        m_stop_states := m_stop_states b, m_start_state := m_start_state b,
        m_current := m_current b, m_error_state := m_error_state b,
        m_status := m_status b, m_in_transition := m_in_transition b,
        m_logger := m_logger b, m_silent := m_silent b\<rparr>,
      b\<lparr>m_stt := m_stt a, m_events := m_events a, m_states := m_states a,
        m_stop_states := m_stop_states a, m_start_state := m_start_state a,
        m_current := m_current a, m_error_state := m_error_state a,
        m_status := m_status a, m_in_transition := m_in_transition a,
        m_logger := m_logger a, m_silent := m_silent a\<rparr>)"

text \<open>\<^verbatim>\<open>FsmBase::move\<close> is \<^verbatim>\<open>swap(*this, other)\<close>; the result is (this, other).\<close>

definition move :: "'a FsmBase \<Rightarrow> 'a FsmBase \<Rightarrow> 'a FsmBase \<times> 'a FsmBase" where
  "move other this = swap this other"

text \<open>
  The copy and move constructors initialise the lock, \<^verbatim>\<open>m_current\<close>, \<^verbatim>\<open>m_status\<close>,
  \<^verbatim>\<open>m_in_transition\<close> and \<^verbatim>\<open>m_silent\<close>, default-construct every other member (the logger
  with an empty subsystem name) and call \<^verbatim>\<open>copy\<close> or \<^verbatim>\<open>move\<close>. The assignment operators
  call \<^verbatim>\<open>copy\<close> or \<^verbatim>\<open>move\<close> on the engine assigned to.
\<close>

definition FsmBase_default :: "'a FsmBase" where
  "FsmBase_default = (FsmBase_ctor False)\<lparr>m_logger := Logger_ctor []\<rparr>"

definition FsmBase_copy_ctor :: "'a FsmBase \<Rightarrow> 'a FsmBase" where
  "FsmBase_copy_ctor other = copy other FsmBase_default"

definition FsmBase_move_ctor :: "'a FsmBase \<Rightarrow> 'a FsmBase \<times> 'a FsmBase" where
  "FsmBase_move_ctor other = move other FsmBase_default"

definition copy_assign :: "'a FsmBase \<Rightarrow> 'a FsmBase \<Rightarrow> 'a FsmBase" where
  "copy_assign other this = copy other this"

definition move_assign :: "'a FsmBase \<Rightarrow> 'a FsmBase \<Rightarrow> 'a FsmBase \<times> 'a FsmBase" where
  "move_assign other this = move other this"

section \<open>Concrete engines\<close>

text \<open>
  The traffic light of the spec's scenarios S1 and S2, with one natural number as the
  argument pack: states G = 1, Y = 2 and R = 3, each with a handler; the handlers of G and
  R succeed and the handler of Y returns \<open>y_ok\<close>. The only symbol is tick; the rows are
  (G, tick) to Y, (Y, tick) to R and (R, tick) to G. G is the start state, R the error state
  and the one stop state. A handler of these lights makes no call and leaves its arguments
  as they are. \<open>lights_of\<close> is the same engine with any state in the place of Y.
\<close>

definition tick :: FsmEvent where
  "tick = 1"

definition light :: "FsmStateId \<Rightarrow> bool \<Rightarrow> nat State" where
  "light sid ok = \<lparr>m_id = sid, m_parent = 0, m_action = Some (\<lambda>args. Return ok args)\<rparr>"

definition lights_of :: "nat State \<Rightarrow> nat FsmBase" where
  "lights_of y =
     (FsmBase_ctor False)
       \<lparr>m_stt := [(SttIndex 1 tick, Transition_ctor tick 2),
                 (SttIndex 2 tick, Transition_ctor tick 3),
                 (SttIndex 3 tick, Transition_ctor tick 1)],
        m_states := [(1, light 1 True), (2, y), (3, light 3 True)],
        m_stop_states := [light 3 True],
        m_start_state := Some (light 1 True),
        m_error_state := Some (light 3 True),
        m_alphabet := [tick]\<rparr>"

definition lights :: "bool \<Rightarrow> nat FsmBase" where
  "lights y_ok = lights_of (light 2 y_ok)"

text \<open>The traffic light after \<^verbatim>\<open>start(true)\<close> and after a following \<^verbatim>\<open>raise(tick, 42)\<close>.\<close>

definition lights_running :: "bool \<Rightarrow> nat FsmBase" where
  "lights_running y_ok = (lights y_ok)\<lparr>m_current := 1, m_status := Running\<rparr>"

definition lights_raised :: "bool \<Rightarrow> nat FsmBase" where
  "lights_raised y_ok = (lights_running y_ok)\<lparr>m_events := [(tick, 42)]\<rparr>"

text \<open>The light whose Y fails, after the step that executes the raised event.\<close>

definition lights_failed :: "nat FsmBase" where
  "lights_failed =
     (lights_running False)\<lparr>m_watchdog := 1, m_current := 3, m_status := Error,
       m_stop_event := 1, invoked := [(2, 42), (3, 42)], consumed := [(tick, 42)]\<rparr>"

text \<open>The light with a raised event, halted before any step, and the same after one step.\<close>

definition lights_halted :: "nat FsmBase" where
  "lights_halted = (lights_raised True)\<lparr>m_status := Stopped\<rparr>"

definition lights_popped :: "nat FsmBase" where
  "lights_popped =
     lights_halted\<lparr>m_events := [], m_watchdog := 1, consumed := [(tick, 42)]\<rparr>"

text \<open>
  The spec's scenario S4: states A = 1 and B = 2 with parent A, both with a handler that
  succeeds, and the rows (A, x) to B and (B, x) to A for the symbol x = 5. A is the start
  and the error state, B the stop state.
\<close>

definition sym_x :: FsmEvent where
  "sym_x = 5"

definition state_A :: "nat State" where
  "state_A = \<lparr>m_id = 1, m_parent = 0, m_action = Some (\<lambda>args. Return True args)\<rparr>"

definition state_B :: "nat State" where
  "state_B = \<lparr>m_id = 2, m_parent = 1, m_action = Some (\<lambda>args. Return True args)\<rparr>"

definition shadowed :: "nat FsmBase" where
  "shadowed =
     (FsmBase_ctor False)
       \<lparr>m_stt := [(SttIndex 1 sym_x, Transition_ctor sym_x 2),
                 (SttIndex 2 sym_x, Transition_ctor sym_x 1)],
        m_states := [(1, state_A), (2, state_B)],
        m_stop_states := [state_B],
        m_start_state := Some state_A,
        m_error_state := Some state_A,
        m_alphabet := [sym_x]\<rparr>"

text \<open>
  An engine with the one state G; the same with the row (G, tick) to the id 9 of no state
  and with G as start, error and stop state; and the latter after \<^verbatim>\<open>start(true)\<close> and
  \<^verbatim>\<open>raise(tick, 0)\<close>.
\<close>

definition single :: "nat FsmBase" where
  "single = (FsmBase_ctor False)\<lparr>m_states := [(1, light 1 True)]\<rparr>"

definition dangling_built :: "nat FsmBase" where
  "dangling_built =
     single\<lparr>m_stt := [(SttIndex 1 tick, Transition_ctor tick 9)], m_alphabet := [tick],
       m_start_state := Some (light 1 True), m_error_state := Some (light 1 True),
       m_stop_states := [light 1 True]\<rparr>"

definition dangling :: "nat FsmBase" where
  "dangling = dangling_built\<lparr>m_current := 1, m_status := Running, m_events := [(tick, 0)]\<rparr>"

text \<open>
  Three other states in the place of Y. The first has a handler that fails and leaves 0 in
  the argument pack; the second has no handler; the handler of the third calls
  \<^verbatim>\<open>transition(tick, 100)\<close> and returns the answer, leaving its arguments as they are.
\<close>

definition light_moving :: "nat State" where
  "light_moving = \<lparr>m_id = 2, m_parent = 0, m_action = Some (\<lambda>args. Return False 0)\<rparr>"

definition light_bare :: "nat State" where
  "light_bare = \<lparr>m_id = 2, m_parent = 0, m_action = None\<rparr>"

definition light_relay :: "nat State" where
  "light_relay =
     \<lparr>m_id = 2, m_parent = 0,
      m_action = Some (\<lambda>args. CallTransition tick 100 (\<lambda>accepted. Return accepted args))\<rparr>"

text \<open>
  The engines with these states after \<^verbatim>\<open>start(true)\<close> and \<^verbatim>\<open>raise(tick, 42)\<close>, and the first
  two after the step that executes the raised event.
\<close>

definition started :: "nat State \<Rightarrow> nat FsmBase" where
  "started y = (lights_of y)\<lparr>m_current := 1, m_status := Running\<rparr>"

definition raised :: "nat State \<Rightarrow> nat FsmBase" where
  "raised y = (started y)\<lparr>m_events := [(tick, 42)]\<rparr>"

definition moving_failed :: "nat FsmBase" where
  "moving_failed =
     (started light_moving)\<lparr>m_watchdog := 1, m_current := 3, m_status := Error,
       m_stop_event := 1, invoked := [(2, 42), (3, 42)], consumed := [(tick, 42)]\<rparr>"

definition bare_failed :: "nat FsmBase" where
  "bare_failed =
     (started light_bare)\<lparr>m_watchdog := 1, m_current := 3, m_status := Error,
       m_stop_event := 1, invoked := [(3, 42)], consumed := [(tick, 42)]\<rparr>"



text \<open>
  The engine whose Y calls \<^verbatim>\<open>transition\<close>: after \<^verbatim>\<open>raise(tick, 42)\<close> and \<^verbatim>\<open>raise(tick, 43)\<close>;
  inside the first step, at the moment the handler of Y makes its call; after that step;
  and after two more steps.
\<close>

definition relay_queued :: "nat FsmBase" where
  "relay_queued = (started light_relay)\<lparr>m_events := [(tick, 42), (tick, 43)]\<rparr>"

definition relay_called :: "nat FsmBase" where
  "relay_called =
     (started light_relay)\<lparr>m_watchdog := 1, m_current := 2, m_events := [(tick, 43)],
       invoked := [(2, 42)], consumed := [(tick, 42)]\<rparr>"

definition relay_stepped :: "nat FsmBase" where
  "relay_stepped =
     (started light_relay)\<lparr>m_watchdog := 1, m_current := 2,
       m_events := [(tick, 100), (tick, 43)], invoked := [(2, 42)],
       consumed := [(tick, 42)]\<rparr>"

definition relay_drained :: "nat FsmBase" where
  "relay_drained =
     (started light_relay)\<lparr>m_watchdog := 3, m_current := 1, m_stop_event := 1,
       invoked := [(2, 42), (3, 100), (1, 43)],
       consumed := [(tick, 42), (tick, 100), (tick, 43)]\<rparr>"

section \<open>Properties\<close>

subsection \<open>State identifiers\<close>

lemma mod_256_take_bit: "(r :: 32 word) mod 256 = take_bit 8 r"
  by (simp add: take_bit_eq_mod)

lemma push_bit_byte_eq_0:
  assumes "n \<le> 24"
  shows "push_bit n (take_bit 8 (r :: 32 word)) = 0 \<longleftrightarrow> take_bit 8 r = 0"
proof
  assume shifted: "push_bit n (take_bit 8 r) = 0"
  show "take_bit 8 r = 0"
  proof (rule bit_eqI)
    fix j
    have "\<not> bit (take_bit 8 r) j"
    proof
      assume set: "bit (take_bit 8 r) j"
      then have "j < 8"
        by (simp add: bit_take_bit_iff)
      with set assms have "bit (push_bit n (take_bit 8 r)) (j + n)"
        by (simp add: bit_push_bit_iff)
      with shifted show False
        by simp
    qed
    then show "bit (take_bit 8 r) j = bit (0 :: 32 word) j"
      by simp
  qed
next
  assume "take_bit 8 r = 0"
  then show "push_bit n (take_bit 8 r) = 0"
    by simp
qed

lemma word_or_eq_0: "(a :: 32 word) OR b = 0 \<longleftrightarrow> a = 0 \<and> b = 0"
  by (auto simp: bit_eq_iff bit_or_iff)

lemma generateFsmStateId_bytes:
  "generateFsmStateId rnd =
     (rnd 0 mod 256) OR push_bit 8 (rnd 1 mod 256) OR push_bit 16 (rnd 2 mod 256)
       OR push_bit 24 (rnd 3 mod 256)"
  by (simp add: generateFsmStateId_def sizeof_FsmStateIdType_def BITS_PER_BYTE_def Let_def
      word_bw_assocs numeral_2_eq_2 numeral_3_eq_3)

lemma generateFsmStateId_eq_0:
  "generateFsmStateId rnd = 0 \<longleftrightarrow>
     rnd 0 mod 256 = 0 \<and> rnd 1 mod 256 = 0 \<and> rnd 2 mod 256 = 0 \<and> rnd 3 mod 256 = 0"
  unfolding generateFsmStateId_bytes word_or_eq_0 mod_256_take_bit
  using push_bit_byte_eq_0 [of 8 "rnd 1"] push_bit_byte_eq_0 [of 16 "rnd 2"]
    push_bit_byte_eq_0 [of 24 "rnd 3"]
  by simp

text \<open>
  C9, as stated: whatever the random source yields, a constructed state has a non-zero
  id. This fails: when every outcome is 0 the id is the sentinel 0.
\<close>

theorem C9_state_id_zero_counterexample:
  "m_id (State_ctor (\<lambda>num. 0) :: unit State) = 0"
  by (simp add: State_ctor_def generateFsmStateId_eq_0)

text \<open>
  C9, amended: both constructors give the state the id that \<^verbatim>\<open>generateFsmStateId\<close> builds
  from the low bytes of four outcomes of the random source, and that id is the sentinel 0
  exactly when all four low bytes are 0; for every other outcome it is non-zero.
\<close>

theorem C9_state_id_zero_iff:
  "(m_id (State_ctor rnd :: 'a State) = 0 \<longleftrightarrow>
      rnd 0 mod 256 = 0 \<and> rnd 1 mod 256 = 0 \<and> rnd 2 mod 256 = 0 \<and> rnd 3 mod 256 = 0) \<and>
   (m_id (State_ctor_parent rnd parent :: 'a State) = 0 \<longleftrightarrow>
      rnd 0 mod 256 = 0 \<and> rnd 1 mod 256 = 0 \<and> rnd 2 mod 256 = 0 \<and> rnd 3 mod 256 = 0)"
  by (simp add: State_ctor_def State_ctor_parent_def generateFsmStateId_eq_0)

subsection \<open>The concrete engines are built and driven by the engine's own operations\<close>

lemma SttIndex_values:
  "SttIndex 1 1 = 4294967297" "SttIndex 2 1 = 4294967298" "SttIndex 3 1 = 4294967299"
  "SttIndex 1 5 = 21474836481" "SttIndex 2 5 = 21474836482"
  by (simp_all add: SttIndex_def)

lemmas lights_defs =
  lights_popped_def lights_halted_def lights_failed_def
  lights_raised_def lights_running_def lights_def lights_of_def FsmBase_ctor_def light_def
  tick_def Transition_ctor_def SttIndex_values

lemmas other_defs =
  relay_drained_def relay_stepped_def relay_called_def relay_queued_def bare_failed_def moving_failed_def raised_def started_def
  light_relay_def light_bare_def light_moving_def lights_of_def FsmBase_ctor_def light_def
  tick_def Transition_ctor_def SttIndex_values

lemmas shadowed_defs =
  shadowed_def state_A_def state_B_def sym_x_def FsmBase_ctor_def Transition_ctor_def
  SttIndex_values

lemmas dangling_defs =
  dangling_def dangling_built_def single_def FsmBase_ctor_def light_def tick_def
  Transition_ctor_def SttIndex_values

lemmas builder_defs =
  Map_contains_def Map_emplace_def Map_at_def addTransition_def updateAlphabet_def
  Set_contains_def Set_insert_def setStartState_def setErrorState_def addStopState_def
  word_le_nat_alt Let_def

lemmas validation_defs =
  start_def valid_def deterministic_def lookup.simps hasAction_def hasParent_def Set_insert_def

lemmas event_defs =
  raise_def transition_def accept_def running_def Map_at_def accept_loop.simps addEvent_def

lemmas step_defs =
  transition_step_def transition_exec_def running_def Map_at_def lookup.simps toErrorState_def
  action_def hasAction_def isStopState_def hasParent_def Let_def

lemma lights_of_built:
  "m_id y = 2 \<Longrightarrow>
   \<exists>fsm1 fsm2 fsm3 fsm4 fsm5 fsm6.
     addStates [light 1 True, y, light 3 True] (FsmBase_ctor False) = (True, fsm1) \<and>
     addTransition 1 (Transition_ctor tick 2) fsm1 = (True, fsm2) \<and>
     addTransition 2 (Transition_ctor tick 3) fsm2 = (True, fsm3) \<and>
     addTransition 3 (Transition_ctor tick 1) fsm3 = (True, fsm4) \<and>
     setStartState 1 fsm4 = Inr fsm5 \<and>
     setErrorState 3 fsm5 = Inr (True, fsm6) \<and>
     addStopState 3 fsm6 = Inr (True, lights_of y)"
  by (simp add: builder_defs lights_defs)

lemma lights_built:
  "\<exists>fsm1 fsm2 fsm3 fsm4 fsm5 fsm6.
     addStates [light 1 True, light 2 y_ok, light 3 True] (FsmBase_ctor False) = (True, fsm1) \<and>
     addTransition 1 (Transition_ctor tick 2) fsm1 = (True, fsm2) \<and>
     addTransition 2 (Transition_ctor tick 3) fsm2 = (True, fsm3) \<and>
     addTransition 3 (Transition_ctor tick 1) fsm3 = (True, fsm4) \<and>
     setStartState 1 fsm4 = Inr fsm5 \<and>
     setErrorState 3 fsm5 = Inr (True, fsm6) \<and>
     addStopState 3 fsm6 = Inr (True, lights y_ok)"
  by (simp add: builder_defs lights_defs)

lemma lights_of_start:
  "m_id y = 2 \<Longrightarrow> m_parent y = 0 \<Longrightarrow> start True (lights_of y) = Some (Inr (started y))"
  by (simp add: validation_defs other_defs)

lemma started_raise:
  "raise tick 42 (started y) = Some (Inr (True, raised y))"
  by (simp add: event_defs other_defs)

lemma lights_start: "start True (lights y_ok) = Some (Inr (lights_running y_ok))"
  by (simp add: validation_defs lights_defs)

lemma lights_raise:
  "raise tick 42 (lights_running y_ok) = Some (Inr (True, lights_raised y_ok))"
  by (simp add: event_defs lights_defs)

lemma lights_step: "transition_step (lights_raised False) = Some (Inr (Fault, lights_failed))"
  by (simp add: step_defs event_defs lights_defs)

lemma lights_halt: "halt (lights_raised True) = lights_halted"
  by (simp add: halt_def running_def lights_defs)

lemma lights_halted_step: "transition_step lights_halted = Some (Inr (Stopped, lights_popped))"
  by (simp add: step_defs lights_defs)

lemma shadowed_built:
  "\<exists>fsm1 fsm2 fsm3 fsm4 fsm5.
     addStates [state_A, state_B] (FsmBase_ctor False) = (True, fsm1) \<and>
     addTransition 1 (Transition_ctor sym_x 2) fsm1 = (True, fsm2) \<and>
     addTransition 2 (Transition_ctor sym_x 1) fsm2 = (True, fsm3) \<and>
     setStartState 1 fsm3 = Inr fsm4 \<and>
     setErrorState 1 fsm4 = Inr (True, fsm5) \<and>
     addStopState 2 fsm5 = Inr (True, shadowed)"
  by (simp add: builder_defs shadowed_defs)

lemma single_built: "addState (light 1 True) (FsmBase_ctor False) = ((1, True), single)"
  by (simp add: addState_def single_def builder_defs lights_defs)

lemma dangling_reached:
  "\<exists>fsm1 fsm2 fsm3 fsm4.
     addTransition 1 (Transition_ctor tick 9) single = (True, fsm1) \<and>
     setStartState 1 fsm1 = Inr fsm2 \<and>
     setErrorState 1 fsm2 = Inr (True, fsm3) \<and>
     addStopState 1 fsm3 = Inr (True, dangling_built) \<and>
     start True dangling_built = Some (Inr fsm4) \<and>
     raise tick 0 fsm4 = Some (Inr (True, dangling))"
  by (simp add: builder_defs validation_defs event_defs dangling_defs)

subsection \<open>What a handler can do to the engine\<close>

text \<open>
  An answered \<^verbatim>\<open>raise\<close> or \<^verbatim>\<open>transition\<close> changes the queue and the in-transition flag only.
  So does the run of a handler's body: it puts records in front of the queue and behind it
  and keeps the records that wait in their order. It crashes only where \<^verbatim>\<open>accept\<close>
  crashes, and on an engine that is not running, as the error state's handler finds it,
  every call is refused and the engine stays as it is.
\<close>

lemma raise_result:
  "raise event args fsm = Some (Inr (accepted, fsm')) \<Longrightarrow>
     fsm' = (if accepted then fsm\<lparr>m_events := m_events fsm @ [(event, args)]\<rparr> else fsm)"
  by (auto simp: raise_def addEvent_def split: option.splits sum.splits if_splits)

lemma transition_result:
  "transition event args fsm = Some (Inr (accepted, fsm')) \<Longrightarrow>
     fsm' = (if accepted
             then fsm\<lparr>m_events := (event, args) # m_events fsm, m_in_transition := True\<rparr>
             else fsm)"
  by (auto simp: transition_def addEvent_def split: option.splits sum.splits if_splits)

lemma run_body_frame:
  "run_body body fsm = Some (Inr (success, args_left, fsm')) \<Longrightarrow>
     \<exists>ahead behind flag.
       fsm' = fsm\<lparr>m_events := ahead @ m_events fsm @ behind, m_in_transition := flag\<rparr>"
proof (induction body arbitrary: fsm)
  case (Return ok left)
  then have "fsm' = fsm\<lparr>m_events := [] @ m_events fsm @ [], m_in_transition := m_in_transition fsm\<rparr>"
    by simp
  then show ?case by blast
next
  case (CallTransition event args continue)
  from CallTransition.prems obtain accepted fsm1 where
    call: "transition event args fsm = Some (Inr (accepted, fsm1))" and
    rest: "run_body (continue accepted) fsm1 = Some (Inr (success, args_left, fsm'))"
    by (auto split: option.splits sum.splits)
  from CallTransition.IH [OF _ rest] obtain ahead behind flag where
    after: "fsm' = fsm1\<lparr>m_events := ahead @ m_events fsm1 @ behind, m_in_transition := flag\<rparr>"
    by blast
  show ?case
  proof (cases accepted)
    case True
    with transition_result [OF call] after
    have "fsm' = fsm\<lparr>m_events := (ahead @ [(event, args)]) @ m_events fsm @ behind,
        m_in_transition := flag\<rparr>"
      by simp
    then show ?thesis by blast
  next
    case False
    with transition_result [OF call] after show ?thesis by auto
  qed
next
  case (CallRaise event args continue)
  from CallRaise.prems obtain accepted fsm1 where
    call: "raise event args fsm = Some (Inr (accepted, fsm1))" and
    rest: "run_body (continue accepted) fsm1 = Some (Inr (success, args_left, fsm'))"
    by (auto split: option.splits sum.splits)
  from CallRaise.IH [OF _ rest] obtain ahead behind flag where
    after: "fsm' = fsm1\<lparr>m_events := ahead @ m_events fsm1 @ behind, m_in_transition := flag\<rparr>"
    by blast
  show ?case
  proof (cases accepted)
    case True
    with raise_result [OF call] after
    have "fsm' = fsm\<lparr>m_events := ahead @ m_events fsm @ ((event, args) # behind),
        m_in_transition := flag\<rparr>"
      by simp
    then show ?thesis by blast
  next
    case False
    with raise_result [OF call] after show ?thesis by auto
  qed
qed

lemma accept_loop_crash:
  assumes "accept_loop stt states state event = Some r"
  shows "r = Inl c \<Longrightarrow> c = KeyNotFound"
  using assms
proof (induction arbitrary: c rule: accept_loop.raw_induct [rotated 1, consumes 1])
  case (1 accept_loop stt states state event r)
  then show ?case
    by (auto simp: Map_at_def split: option.splits if_splits sum.splits)
qed

lemma accept_crash: "accept event fsm = Some (Inl c) \<Longrightarrow> c = KeyNotFound"
  by (auto simp: accept_def Map_at_def dest: accept_loop_crash split: if_splits option.splits)

lemma run_body_crash: "run_body body fsm = Some (Inl c) \<Longrightarrow> c = KeyNotFound"
proof (induction body arbitrary: fsm)
  case (Return ok left)
  then show ?case by simp
next
  case (CallTransition event args continue)
  then show ?case
    by (auto simp: transition_def dest: accept_crash split: option.splits sum.splits if_splits)
next
  case (CallRaise event args continue)
  then show ?case
    by (auto simp: raise_def dest: accept_crash split: option.splits sum.splits if_splits)
qed

lemma run_body_not_running:
  "\<not> running fsm \<Longrightarrow> \<exists>success args_left. run_body body fsm = Some (Inr (success, args_left, fsm))"
  by (induction body) (simp_all add: transition_def raise_def accept_def)

lemma action_result:
  assumes "action state args fsm = Some (Inr (success, args_left, fsm'))"
  shows "\<exists>handler ahead behind flag.
           m_action state = Some handler \<and>
           run_body (handler args) (fsm\<lparr>invoked := invoked fsm @ [(m_id state, args)]\<rparr>) =
             Some (Inr (success, args_left, fsm')) \<and>
           fsm' = fsm\<lparr>invoked := invoked fsm @ [(m_id state, args)],
             m_events := ahead @ m_events fsm @ behind, m_in_transition := flag\<rparr>"
proof -
  from assms obtain handler where
    handler: "m_action state = Some handler" and
    run: "run_body (handler args) (fsm\<lparr>invoked := invoked fsm @ [(m_id state, args)]\<rparr>) =
      Some (Inr (success, args_left, fsm'))"
    by (auto simp: action_def split: option.splits)
  from run_body_frame [OF run] handler run show ?thesis
    by auto
qed

lemma action_crash:
  "action state args fsm = Some (Inl c) \<Longrightarrow> c = KeyNotFound \<or> c = EmptyFunction"
  by (auto simp: action_def dest: run_body_crash split: option.splits)

lemma toErrorState_eq:
  "toErrorState args fsm =
     (case m_error_state fsm of
        None \<Rightarrow> Some (Inl NullReference)
      | Some error_state \<Rightarrow>
          (case m_action error_state of
             None \<Rightarrow> Some (Inl EmptyFunction)
           | Some handler \<Rightarrow>
               Some (Inr (fsm\<lparr>m_current := m_id error_state, m_status := Error,
                 invoked := invoked fsm @ [(m_id error_state, args)]\<rparr>))))"
proof (cases "m_error_state fsm")
  case None
  then show ?thesis by (simp add: toErrorState_def)
next
  case (Some error_state)
  show ?thesis
  proof (cases "m_action error_state")
    case None
    with Some show ?thesis by (simp add: toErrorState_def action_def)
  next
    case (Some handler)
    let ?fsm = "fsm\<lparr>m_current := m_id error_state, m_status := Error,
      invoked := invoked fsm @ [(m_id error_state, args)]\<rparr>"
    have "\<not> running ?fsm" by (simp add: running_def)
    from run_body_not_running [OF this, of "handler args"] obtain success args_left where
      "run_body (handler args) ?fsm = Some (Inr (success, args_left, ?fsm))"
      by blast
    with Some \<open>m_error_state fsm = Some error_state\<close> show ?thesis
      by (simp add: toErrorState_def action_def)
  qed
qed

subsection \<open>Halting\<close>

text \<open>
  C5, as stated: after \<^verbatim>\<open>halt()\<close> the status is Stopped in every engine state, also in status
  Error after a handler failure. This fails: the traffic light whose Y fails is in status
  Error after its step, and \<^verbatim>\<open>halt()\<close> leaves it there.
\<close>

theorem C5_halt_error_counterexample:
  "transition_step (lights_raised False) = Some (Inr (Fault, lights_failed)) \<and>
   m_status lights_failed = Error \<and> m_status (halt lights_failed) = Error"
  by (simp add: lights_step) (simp add: halt_def running_def lights_defs)

text \<open>
  C5, amended: \<^verbatim>\<open>halt()\<close> sets the status to Stopped when the engine is running and
  changes nothing otherwise; it touches no other member. An engine in status Error stays
  in status Error.
\<close>

theorem C5_halt_status:
  "halt fsm = fsm\<lparr>m_status := (if m_status fsm = Running then Stopped else m_status fsm)\<rparr>"
  by (simp add: halt_def running_def)

subsection \<open>The step\<close>

text \<open>
  C6, as stated: a step of an engine that is not running returns the latched status, not
  StateUnchanged, and leaves the queue alone. This fails twice: the stopped traffic light
  with an empty queue answers StateUnchanged, and the halted one with a waiting record
  answers Stopped but loses the record.
\<close>

theorem C6_step_not_running_counterexample:
  "m_status (lights True) = Stopped \<and>
   transition_step (lights True) = Some (Inr (StateUnchanged, lights True)) \<and>
   m_status lights_halted = Stopped \<and> m_events lights_halted = [(tick, 42)] \<and>
   transition_step lights_halted = Some (Inr (Stopped, lights_popped)) \<and>
   m_events lights_popped = []"
  by (simp add: lights_halted_step) (simp add: transition_step_def lights_defs)

text \<open>
  C6, amended: the step looks at the queue before it looks at the status. With an empty
  queue it returns StateUnchanged and changes nothing, whatever the status. With a record
  waiting and a status other than Running it removes the front record, resets the watchdog,
  clears the in-transition flag and returns the latched status; nothing else changes.
\<close>

theorem C6_step_not_running:
  "(m_events fsm = [] \<longrightarrow> transition_step fsm = Some (Inr (StateUnchanged, fsm))) \<and>
   (m_events fsm \<noteq> [] \<and> m_status fsm \<noteq> Running \<longrightarrow>
      transition_step fsm =
        Some (Inr (m_status fsm,
          fsm\<lparr>m_events := tl (m_events fsm), consumed := consumed fsm @ [hd (m_events fsm)],
              m_watchdog := m_watchdog fsm + 1, m_in_transition := False\<rparr>)))"
  by (simp add: transition_step_def transition_exec_def running_def)

text \<open>Witness for C6: the stopped traffic light, with an empty queue and with one record.\<close>

theorem C6_step_not_running_witness:
  "m_events (lights True) = [] \<and>
   transition_step (lights True) = Some (Inr (StateUnchanged, lights True)) \<and>
   m_events lights_halted \<noteq> [] \<and> m_status lights_halted \<noteq> Running \<and>
   transition_step lights_halted = Some (Inr (Stopped, lights_popped))"
  using C6_step_not_running [of "lights True"] C6_step_not_running [of lights_halted]
  by (simp add: lights_defs)

text \<open>
  No operation stores Fault in \<^verbatim>\<open>m_status\<close>: it is a return value of the step only. The
  step, \<^verbatim>\<open>start\<close> and \<^verbatim>\<open>halt\<close> keep the latched status among Stopped, Running and Error.
\<close>

lemma transition_step_status:
  assumes "transition_step fsm = Some (Inr (rv, fsm'))"
  shows "m_status fsm' = m_status fsm \<or> m_status fsm' = Error"
  using assms
  by (auto simp: transition_step_def transition_exec_def toErrorState_eq Let_def
      dest!: action_result split: if_splits option.splits sum.splits prod.splits)

lemma start_status:
  assumes "start check fsm = Some (Inr fsm')"
  shows "m_status fsm' = m_status fsm \<or> m_status fsm' = Running"
  using assms
  by (auto simp: start_def split: if_splits option.splits sum.splits)

lemma halt_status: "m_status (halt fsm) = m_status fsm \<or> m_status (halt fsm) = Stopped"
  by (simp add: halt_def)

subsection \<open>The failing handler\<close>

lemma transition_step_Fault:
  assumes step: "transition_step fsm = Some (Inr (Fault, fsm'))"
    and latched: "m_status fsm \<noteq> Fault"
  shows "\<exists>error_state handler state row dest.
         m_error_state fsm = Some error_state \<and> m_error_state fsm' = Some error_state \<and>
         m_action error_state = Some handler \<and>
         m_events fsm \<noteq> [] \<and> m_status fsm = Running \<and>
         Map_at (m_states fsm) (m_current fsm) = Inr state \<and>
         lookup (m_stt fsm) (m_states fsm) state (fst (hd (m_events fsm))) =
           Some (Inr (Some row)) \<and>
         map_of (m_states fsm) (m_next row) = Some dest \<and>
         (case m_action dest of
            None \<Rightarrow>
              invoked fsm' = invoked fsm @ [(m_id error_state, snd (hd (m_events fsm)))]
          | Some failing \<Rightarrow>
              (\<exists>args_left fsm3.
                 run_body (failing (snd (hd (m_events fsm))))
                   (fsm\<lparr>m_events := tl (m_events fsm),
                      consumed := consumed fsm @ [hd (m_events fsm)],
                      m_watchdog := m_watchdog fsm + 1, m_current := m_next row,
                      invoked := invoked fsm @ [(m_id dest, snd (hd (m_events fsm)))]\<rparr>) =
                 Some (Inr (False, args_left, fsm3))) \<and>
              invoked fsm' = invoked fsm @
                [(m_id dest, snd (hd (m_events fsm))),
                 (m_id error_state, snd (hd (m_events fsm)))]) \<and>
         m_current fsm' = m_id error_state \<and> m_status fsm' = Error \<and>
         m_stop_event fsm' = m_stop_event fsm + 1"
proof -
  define event where "event = fst (hd (m_events fsm))"
  define args where "args = snd (hd (m_events fsm))"
  define fsm1 where "fsm1 = fsm\<lparr>m_events := tl (m_events fsm),
    consumed := consumed fsm @ [hd (m_events fsm)], m_watchdog := m_watchdog fsm + 1\<rparr>"
  from step have nonempty: "m_events fsm \<noteq> []"
    by (auto simp: transition_step_def split: if_splits)
  from step latched nonempty have run: "m_status fsm = Running"
    by (auto simp: transition_step_def transition_exec_def running_def Let_def
        split: if_splits option.splits sum.splits)
  from step nonempty run obtain state where
    state: "Map_at (m_states fsm) (m_current fsm) = Inr state"
    by (auto simp: transition_step_def transition_exec_def running_def Let_def
        split: option.splits sum.splits)
  from step nonempty run state obtain row where
    row: "lookup (m_stt fsm) (m_states fsm) state event = Some (Inr (Some row))"
    by (auto simp: transition_step_def transition_exec_def running_def Let_def event_def
        split: option.splits sum.splits)
  define fsm2 where "fsm2 = fsm1\<lparr>m_current := m_next row\<rparr>"
  from step nonempty run state row obtain dest where
    dest: "map_of (m_states fsm) (m_next row) = Some dest"
    by (auto simp: transition_step_def transition_exec_def running_def Let_def event_def
        split: option.splits sum.splits)
  from step nonempty run state row dest obtain success args_left fsm3 fsm4 where
    called: "(if hasAction dest then action dest args fsm2 else Some (Inr (False, args, fsm2))) =
      Some (Inr (success, args_left, fsm3))" and
    failed: "\<not> success" and
    entered: "toErrorState args fsm3 = Some (Inr fsm4)" and
    final: "fsm' = fsm4\<lparr>m_stop_event := m_stop_event fsm4 + 1, m_in_transition := False\<rparr>"
    by (auto simp: transition_step_def transition_exec_def running_def Let_def event_def
        args_def fsm1_def fsm2_def split: option.splits sum.splits prod.splits if_splits)
  from entered obtain error_state handler where
    error_state: "m_error_state fsm3 = Some error_state" and
    handler: "m_action error_state = Some handler" and
    fsm4: "fsm4 = fsm3\<lparr>m_current := m_id error_state, m_status := Error,
      invoked := invoked fsm3 @ [(m_id error_state, args)]\<rparr>"
    by (auto simp: toErrorState_eq split: option.splits)
  show ?thesis
  proof (cases "m_action dest")
    case None
    with called have "fsm3 = fsm2"
      by (simp add: hasAction_def)
    with None error_state handler fsm4 final nonempty run state row dest show ?thesis
      by (simp add: fsm2_def fsm1_def args_def event_def)
  next
    case (Some failing)
    with called have "action dest args fsm2 = Some (Inr (success, args_left, fsm3))"
      by (simp add: hasAction_def)
    from action_result [OF this] Some obtain ahead behind flag where
      body: "run_body (failing args) (fsm2\<lparr>invoked := invoked fsm2 @ [(m_id dest, args)]\<rparr>) =
        Some (Inr (success, args_left, fsm3))" and
      fsm3: "fsm3 = fsm2\<lparr>invoked := invoked fsm2 @ [(m_id dest, args)],
        m_events := ahead @ m_events fsm2 @ behind, m_in_transition := flag\<rparr>"
      by auto
    from body failed have "\<exists>args_left fsm3.
        run_body (failing args)
          (fsm\<lparr>m_events := tl (m_events fsm), consumed := consumed fsm @ [hd (m_events fsm)],
             m_watchdog := m_watchdog fsm + 1, m_current := m_next row,
             invoked := invoked fsm @ [(m_id dest, args)]\<rparr>) =
        Some (Inr (False, args_left, fsm3))"
      by (auto simp: fsm2_def fsm1_def)
    with Some fsm3 error_state handler fsm4 final nonempty run state row dest show ?thesis
      by (simp add: fsm2_def fsm1_def args_def event_def)
  qed
qed

text \<open>
  C7: the step returns Fault exactly on a failing destination, and then the engine is in
  the error state. First, when the step returns Fault (from an engine whose latched status
  is not itself Fault, which no operation ever stores), the engine was running, the front
  record was resolved to a row whose destination is registered, and the destination has no
  handler or its handler returned false on the record's arguments; afterwards the current
  state is the error state's id and the status is Error, the error state's handler was
  called last, with the arguments of the record as they were before the failing call, and
  the stop signal was sent once. Second and third, on a running engine whose error state
  is set and has a handler, a registered destination without a handler, and one whose
  handler returns false, make the step return Fault with the engine so changed; the error
  state receives the record's arguments, not what the failing handler left of them.
\<close>

theorem C7_fault_enters_error_state:
  "(transition_step fsm = Some (Inr (Fault, fsm')) \<and> m_status fsm \<noteq> Fault \<longrightarrow>
      (\<exists>error_state handler state row dest.
         m_error_state fsm = Some error_state \<and> m_error_state fsm' = Some error_state \<and>
         m_action error_state = Some handler \<and>
         m_events fsm \<noteq> [] \<and> m_status fsm = Running \<and>
         Map_at (m_states fsm) (m_current fsm) = Inr state \<and>
         lookup (m_stt fsm) (m_states fsm) state (fst (hd (m_events fsm))) =
           Some (Inr (Some row)) \<and>
         map_of (m_states fsm) (m_next row) = Some dest \<and>
         (case m_action dest of
            None \<Rightarrow>
              invoked fsm' = invoked fsm @ [(m_id error_state, snd (hd (m_events fsm)))]
          | Some failing \<Rightarrow>
              (\<exists>args_left fsm3.
                 run_body (failing (snd (hd (m_events fsm))))
                   (fsm\<lparr>m_events := tl (m_events fsm),
                      consumed := consumed fsm @ [hd (m_events fsm)],
                      m_watchdog := m_watchdog fsm + 1, m_current := m_next row,
                      invoked := invoked fsm @ [(m_id dest, snd (hd (m_events fsm)))]\<rparr>) =
                 Some (Inr (False, args_left, fsm3))) \<and>
              invoked fsm' = invoked fsm @
                [(m_id dest, snd (hd (m_events fsm))),
                 (m_id error_state, snd (hd (m_events fsm)))]) \<and>
         m_current fsm' = m_id error_state \<and> m_status fsm' = Error \<and>
         m_stop_event fsm' = m_stop_event fsm + 1)) \<and>
   (running fsm \<and> m_events fsm = (event, args) # queue \<and>
    Map_at (m_states fsm) (m_current fsm) = Inr state \<and>
    lookup (m_stt fsm) (m_states fsm) state event = Some (Inr (Some row)) \<and>
    map_of (m_states fsm) (m_next row) = Some dest \<and>
    m_error_state fsm = Some error_state \<and> m_action error_state = Some handler \<and>
    m_action dest = None \<longrightarrow>
      transition_step fsm =
        Some (Inr (Fault,
          fsm\<lparr>m_events := queue, consumed := consumed fsm @ [(event, args)],
            m_watchdog := m_watchdog fsm + 1, m_current := m_id error_state,
            m_status := Error, invoked := invoked fsm @ [(m_id error_state, args)],
            m_stop_event := m_stop_event fsm + 1, m_in_transition := False\<rparr>))) \<and>
   (running fsm \<and> m_events fsm = (event, args) # queue \<and>
    Map_at (m_states fsm) (m_current fsm) = Inr state \<and>
    lookup (m_stt fsm) (m_states fsm) state event = Some (Inr (Some row)) \<and>
    map_of (m_states fsm) (m_next row) = Some dest \<and>
    m_error_state fsm = Some error_state \<and> m_action error_state = Some handler \<and>
    m_action dest = Some failing \<and>
    run_body (failing args)
      (fsm\<lparr>m_events := queue, consumed := consumed fsm @ [(event, args)],
         m_watchdog := m_watchdog fsm + 1, m_current := m_next row,
         invoked := invoked fsm @ [(m_id dest, args)]\<rparr>) =
      Some (Inr (False, args_left, fsm3)) \<longrightarrow>
      transition_step fsm =
        Some (Inr (Fault,
          fsm3\<lparr>m_current := m_id error_state, m_status := Error,
            invoked := invoked fsm3 @ [(m_id error_state, args)],
            m_stop_event := m_stop_event fsm3 + 1, m_in_transition := False\<rparr>)))"
proof (intro conjI impI)
  assume "transition_step fsm = Some (Inr (Fault, fsm')) \<and> m_status fsm \<noteq> Fault"
  then show "\<exists>error_state handler state row dest.
         m_error_state fsm = Some error_state \<and> m_error_state fsm' = Some error_state \<and>
         m_action error_state = Some handler \<and>
         m_events fsm \<noteq> [] \<and> m_status fsm = Running \<and>
         Map_at (m_states fsm) (m_current fsm) = Inr state \<and>
         lookup (m_stt fsm) (m_states fsm) state (fst (hd (m_events fsm))) =
           Some (Inr (Some row)) \<and>
         map_of (m_states fsm) (m_next row) = Some dest \<and>
         (case m_action dest of
            None \<Rightarrow>
              invoked fsm' = invoked fsm @ [(m_id error_state, snd (hd (m_events fsm)))]
          | Some failing \<Rightarrow>
              (\<exists>args_left fsm3.
                 run_body (failing (snd (hd (m_events fsm))))
                   (fsm\<lparr>m_events := tl (m_events fsm),
                      consumed := consumed fsm @ [hd (m_events fsm)],
                      m_watchdog := m_watchdog fsm + 1, m_current := m_next row,
                      invoked := invoked fsm @ [(m_id dest, snd (hd (m_events fsm)))]\<rparr>) =
                 Some (Inr (False, args_left, fsm3))) \<and>
              invoked fsm' = invoked fsm @
                [(m_id dest, snd (hd (m_events fsm))),
                 (m_id error_state, snd (hd (m_events fsm)))]) \<and>
         m_current fsm' = m_id error_state \<and> m_status fsm' = Error \<and>
         m_stop_event fsm' = m_stop_event fsm + 1"
    using transition_step_Fault by blast
next
  assume "running fsm \<and> m_events fsm = (event, args) # queue \<and>
    Map_at (m_states fsm) (m_current fsm) = Inr state \<and>
    lookup (m_stt fsm) (m_states fsm) state event = Some (Inr (Some row)) \<and>
    map_of (m_states fsm) (m_next row) = Some dest \<and>
    m_error_state fsm = Some error_state \<and> m_action error_state = Some handler \<and>
    m_action dest = None"
  then show "transition_step fsm =
        Some (Inr (Fault,
          fsm\<lparr>m_events := queue, consumed := consumed fsm @ [(event, args)],
            m_watchdog := m_watchdog fsm + 1, m_current := m_id error_state,
            m_status := Error, invoked := invoked fsm @ [(m_id error_state, args)],
            m_stop_event := m_stop_event fsm + 1, m_in_transition := False\<rparr>))"
    by (simp add: transition_step_def transition_exec_def toErrorState_eq hasAction_def
        running_def)
next
  assume hyp: "running fsm \<and> m_events fsm = (event, args) # queue \<and>
    Map_at (m_states fsm) (m_current fsm) = Inr state \<and>
    lookup (m_stt fsm) (m_states fsm) state event = Some (Inr (Some row)) \<and>
    map_of (m_states fsm) (m_next row) = Some dest \<and>
    m_error_state fsm = Some error_state \<and> m_action error_state = Some handler \<and>
    m_action dest = Some failing \<and>
    run_body (failing args)
      (fsm\<lparr>m_events := queue, consumed := consumed fsm @ [(event, args)],
         m_watchdog := m_watchdog fsm + 1, m_current := m_next row,
         invoked := invoked fsm @ [(m_id dest, args)]\<rparr>) =
      Some (Inr (False, args_left, fsm3))"
  then have run: "run_body (failing args)
      (fsm\<lparr>m_events := queue, consumed := consumed fsm @ [(event, args)],
         m_watchdog := m_watchdog fsm + 1, m_current := m_next row,
         invoked := invoked fsm @ [(m_id dest, args)]\<rparr>) =
      Some (Inr (False, args_left, fsm3))"
    by simp
  from run_body_frame [OF run] hyp have "m_error_state fsm3 = Some error_state"
    by auto
  with hyp show "transition_step fsm =
        Some (Inr (Fault,
          fsm3\<lparr>m_current := m_id error_state, m_status := Error,
            invoked := invoked fsm3 @ [(m_id error_state, args)],
            m_stop_event := m_stop_event fsm3 + 1, m_in_transition := False\<rparr>))"
    by (simp add: transition_step_def transition_exec_def toErrorState_eq hasAction_def
        action_def running_def)
qed

text \<open>
  Witness for C7: the traffic light whose Y has no handler, and the one whose Y fails and
  leaves 0 in the argument pack (scenario S2). In both the step from G on (tick, 42)
  returns Fault and calls the handler of R, the error state, with 42.
\<close>

theorem C7_fault_enters_error_state_witness:
  "running (raised light_bare) \<and> m_action light_bare = None \<and>
   transition_step (raised light_bare) = Some (Inr (Fault, bare_failed)) \<and>
   m_current bare_failed = 3 \<and> m_status bare_failed = Error \<and>
   invoked bare_failed = [(3, 42)] \<and> m_stop_event bare_failed = 1 \<and>
   running (raised light_moving) \<and>
   m_action light_moving = Some (\<lambda>args. Return False 0) \<and>
   transition_step (raised light_moving) = Some (Inr (Fault, moving_failed)) \<and>
   m_status (raised light_moving) \<noteq> Fault \<and>
   m_error_state moving_failed = Some (light 3 True) \<and>
   m_current moving_failed = 3 \<and> m_status moving_failed = Error \<and>
   invoked moving_failed = [(2, 42), (3, 42)] \<and> m_stop_event moving_failed = 1"
proof -
  have bare: "running (raised light_bare) \<and> m_events (raised light_bare) = (tick, 42) # [] \<and>
      Map_at (m_states (raised light_bare)) (m_current (raised light_bare)) = Inr (light 1 True) \<and>
      lookup (m_stt (raised light_bare)) (m_states (raised light_bare)) (light 1 True) tick =
        Some (Inr (Some (Transition_ctor tick 2))) \<and>
      map_of (m_states (raised light_bare)) (m_next (Transition_ctor tick 2 :: nat Transition)) =
        Some light_bare \<and>
      m_error_state (raised light_bare) = Some (light 3 True) \<and>
      m_action (light 3 True) = Some (\<lambda>args. Return True args) \<and>
      m_action light_bare = None"
    by (simp add: running_def Map_at_def lookup.simps other_defs)
  from C7_fault_enters_error_state [where fsm = "raised light_bare" and event = tick and args = 42 and queue = "[]"
      and state = "light 1 True" and row = "Transition_ctor tick 2" and dest = light_bare
      and error_state = "light 3 True" and handler = "\<lambda>args. Return True args"] bare
  have bare_step: "transition_step (raised light_bare) = Some (Inr (Fault, bare_failed))"
    by (simp add: other_defs)
  have moving: "running (raised light_moving) \<and>
      m_events (raised light_moving) = (tick, 42) # [] \<and>
      Map_at (m_states (raised light_moving)) (m_current (raised light_moving)) =
        Inr (light 1 True) \<and>
      lookup (m_stt (raised light_moving)) (m_states (raised light_moving)) (light 1 True) tick =
        Some (Inr (Some (Transition_ctor tick 2))) \<and>
      map_of (m_states (raised light_moving)) (m_next (Transition_ctor tick 2 :: nat Transition)) =
        Some light_moving \<and>
      m_error_state (raised light_moving) = Some (light 3 True) \<and>
      m_action (light 3 True) = Some (\<lambda>args. Return True args) \<and>
      m_action light_moving = Some (\<lambda>args. Return False 0)"
    by (simp add: running_def Map_at_def lookup.simps other_defs)
  from C7_fault_enters_error_state [where fsm = "raised light_moving" and event = tick and args = 42 and queue = "[]"
      and state = "light 1 True" and row = "Transition_ctor tick 2" and dest = light_moving
      and error_state = "light 3 True" and handler = "\<lambda>args. Return True args"
      and failing = "\<lambda>args. Return False 0" and args_left = 0
      and ?fsm3.0 = "(raised light_moving)\<lparr>m_events := [], consumed := [(tick, 42)],
        m_watchdog := 1, m_current := 2, invoked := [(2, 42)]\<rparr>"] moving
  have moving_step: "transition_step (raised light_moving) = Some (Inr (Fault, moving_failed))"
    by (simp add: other_defs)
  have latched: "m_status (raised light_moving) \<noteq> Fault"
    by (simp add: other_defs)
  from C7_fault_enters_error_state [where fsm = "raised light_moving" and fsm' = moving_failed] moving_step latched
  have "m_current moving_failed = 3 \<and> m_status moving_failed = Error \<and>
      m_error_state moving_failed = Some (light 3 True)"
    by (auto simp: other_defs)
  with bare bare_step moving moving_step latched show ?thesis
    by (simp add: other_defs)
qed

subsection \<open>The event queue\<close>










subsection \<open>Registering transitions\<close>

lemma map_of_insort_key:
  "map_of m k = None \<Longrightarrow> map_of (insort_key fst (k, v) m) = (map_of m)(k \<mapsto> v)"
  by (induction m) (auto simp: fun_upd_twist split: if_splits)

text \<open>The table index keeps the state and the event apart: equal indices are equal pairs.\<close>

lemma SttIndex_inject: "SttIndex s e = SttIndex s' e' \<longleftrightarrow> s = s' \<and> e = e'"
proof
  assume eq: "SttIndex s e = SttIndex s' e'"
  have low: "ucast (SttIndex a b) = a" for a b
    by (rule bit_word_eqI) (auto simp: SttIndex_def bit_simps)
  have high: "ucast (drop_bit 32 (SttIndex a b)) = b" for a b
    by (rule bit_word_eqI) (auto simp: SttIndex_def bit_simps dest: bit_imp_le_length)
  from eq low [of s e] low [of s' e'] high [of s e] high [of s' e'] show "s = s' \<and> e = e'"
    by simp
qed simp

text \<open>
  C3, as stated: \<^verbatim>\<open>addTransition\<close> returns false for a state id that is not a key of the
  state map. This fails: on a fresh engine, which has no state at all, a transition for the
  state id 7 is accepted.
\<close>

theorem C3_addTransition_unknown_state_counterexample:
  "\<not> Map_contains (m_states (FsmBase_ctor False :: nat FsmBase)) 7 \<and>
   fst (addTransition 7 (Transition_ctor tick 2) (FsmBase_ctor False :: nat FsmBase))"
  by (simp add: builder_defs FsmBase_ctor_def)

text \<open>
  C3, amended: \<^verbatim>\<open>addTransition\<close> does not consult the state map. For every state id,
  registered or not, it returns true exactly when the table holds no row under the index of
  (state id, event); then the row is added under that index, and otherwise the table is
  unchanged. In both cases the alphabet afterwards is the old one with the transition's
  event, and the state map is unchanged.
\<close>

theorem C3_addTransition:
  assumes "addTransition state row fsm = (second, fsm')"
  shows "second = (\<not> Map_contains (m_stt fsm) (SttIndex state (m_event row))) \<and>
         map_of (m_stt fsm') =
           (if second then (map_of (m_stt fsm))(SttIndex state (m_event row) \<mapsto> row)
            else map_of (m_stt fsm)) \<and>
         set (m_alphabet fsm') = insert (m_event row) (set (m_alphabet fsm)) \<and>
         m_states fsm' = m_states fsm"
  using assms
  by (auto simp: addTransition_def updateAlphabet_def Map_emplace_def Map_contains_def
      Set_contains_def Set_insert_def Let_def map_of_insort_key split: if_splits)

text \<open>Witness for C3: the row (G, tick) to 9 is added to the engine with the one state G.\<close>

theorem C3_addTransition_witness:
  "addTransition 1 (Transition_ctor tick 9) single =
     (True, single\<lparr>m_stt := [(SttIndex 1 tick, Transition_ctor tick 9)],
        m_alphabet := [tick]\<rparr>) \<and>
   \<not> Map_contains (m_stt single) (SttIndex 1 tick) \<and>
   set (m_alphabet (single\<lparr>m_stt := [(SttIndex 1 tick, Transition_ctor tick 9)],
     m_alphabet := [tick]\<rparr>)) = insert tick (set (m_alphabet single))"
proof -
  have run: "addTransition 1 (Transition_ctor tick 9) single =
     (True, single\<lparr>m_stt := [(SttIndex 1 tick, Transition_ctor tick 9)],
        m_alphabet := [tick]\<rparr>)"
    by (simp add: single_def builder_defs lights_defs)
  from C3_addTransition [OF run] run show ?thesis
    by (simp add: Transition_ctor_def)
qed

subsection \<open>The destination of a row\<close>

lemma lookup_row_in_table:
  assumes "lookup stt states state event = Some r"
  shows "r = Inr (Some row) \<Longrightarrow> \<exists>key. map_of stt key = Some row"
  using assms
proof (induction arbitrary: row rule: lookup.raw_induct [rotated 1, consumes 1])
  case (1 lookup stt states state event r)
  then show ?case
    by (auto split: option.splits if_splits sum.splits)
qed

lemma lookup_crash:
  assumes "lookup stt states state event = Some r"
  shows "r = Inl c \<Longrightarrow> c = KeyNotFound"
  using assms
proof (induction arbitrary: c rule: lookup.raw_induct [rotated 1, consumes 1])
  case (1 lookup stt states state event r)
  then show ?case
    by (auto simp: Map_at_def split: option.splits if_splits sum.splits)
qed

text \<open>
  C10: a step of a running engine that resolves the front event to a row whose destination
  is not registered ends in the dereference of a null state pointer; when the destination
  of every row of the table is registered, no step ends that way; and \<^verbatim>\<open>addTransition\<close>
  accepts a row under a fresh index whatever its destination is, without a change to the
  state map, so it does not establish that precondition.
\<close>

theorem C10_destination_unchecked:
  "(running fsm1 \<and> m_events fsm1 = (event, args) # queue \<and>
    Map_at (m_states fsm1) (m_current fsm1) = Inr state \<and>
    lookup (m_stt fsm1) (m_states fsm1) state event = Some (Inr (Some row)) \<and>
    \<not> Map_contains (m_states fsm1) (m_next row) \<longrightarrow>
      transition_step fsm1 = Some (Inl NullPointer)) \<and>
   ((\<forall>(key, row) \<in> set (m_stt fsm2). Map_contains (m_states fsm2) (m_next row)) \<longrightarrow>
      transition_step fsm2 \<noteq> Some (Inl NullPointer)) \<and>
   (\<not> Map_contains (m_stt fsm3) (SttIndex state3 (m_event row3)) \<longrightarrow>
      (\<exists>fsm3'. addTransition state3 row3 fsm3 = (True, fsm3') \<and>
         map_of (m_stt fsm3') (SttIndex state3 (m_event row3)) = Some row3 \<and>
         m_states fsm3' = m_states fsm3))"
proof (intro conjI impI)
  assume "running fsm1 \<and> m_events fsm1 = (event, args) # queue \<and>
    Map_at (m_states fsm1) (m_current fsm1) = Inr state \<and>
    lookup (m_stt fsm1) (m_states fsm1) state event = Some (Inr (Some row)) \<and>
    \<not> Map_contains (m_states fsm1) (m_next row)"
  then show "transition_step fsm1 = Some (Inl NullPointer)"
    by (simp add: transition_step_def transition_exec_def running_def Map_contains_def)
next
  assume closed: "\<forall>(key, row) \<in> set (m_stt fsm2). Map_contains (m_states fsm2) (m_next row)"
  show "transition_step fsm2 \<noteq> Some (Inl NullPointer)"
  proof
    assume "transition_step fsm2 = Some (Inl NullPointer)"
    then obtain state event row where
      found: "lookup (m_stt fsm2) (m_states fsm2) state event = Some (Inr (Some row))" and
      missing: "map_of (m_states fsm2) (m_next row) = None"
      by (auto simp: transition_step_def transition_exec_def toErrorState_eq Map_at_def
          Let_def dest: lookup_crash action_crash
          split: if_splits option.splits sum.splits prod.splits)
    from found obtain key where "map_of (m_stt fsm2) key = Some row"
      using lookup_row_in_table by blast
    then have "(key, row) \<in> set (m_stt fsm2)"
      by (rule map_of_SomeD)
    with closed missing show False
      by (auto simp: Map_contains_def)
  qed
next
  assume "\<not> Map_contains (m_stt fsm3) (SttIndex state3 (m_event row3))"
  then show "\<exists>fsm3'. addTransition state3 row3 fsm3 = (True, fsm3') \<and>
         map_of (m_stt fsm3') (SttIndex state3 (m_event row3)) = Some row3 \<and>
         m_states fsm3' = m_states fsm3"
    by (auto simp: addTransition_def updateAlphabet_def Map_emplace_def Map_contains_def
        Set_contains_def Set_insert_def Let_def map_of_insort_key)
qed

text \<open>
  Witness for C10: the engine whose row (G, tick) leads to 9 passes \<^verbatim>\<open>start(true)\<close>, accepts
  \<^verbatim>\<open>raise(tick, 0)\<close> and then stops in its step at the null pointer; the traffic light, whose
  rows all lead to registered states, does not; and the row to 9 was accepted by
  \<^verbatim>\<open>addTransition\<close> on the engine with the one state G.
\<close>

theorem C10_destination_unchecked_witness:
  "running dangling \<and> m_events dangling = [(tick, 0)] \<and>
   Map_at (m_states dangling) (m_current dangling) = Inr (light 1 True) \<and>
   lookup (m_stt dangling) (m_states dangling) (light 1 True) tick =
     Some (Inr (Some (Transition_ctor tick 9))) \<and>
   \<not> Map_contains (m_states dangling) (m_next (Transition_ctor tick 9 :: nat Transition)) \<and>
   transition_step dangling = Some (Inl NullPointer) \<and>
   transition_step (lights_raised True) \<noteq> Some (Inl NullPointer) \<and>
   \<not> Map_contains (m_stt single) (SttIndex 1 (m_event (Transition_ctor tick 9 :: nat Transition))) \<and>
   (\<exists>fsm'. addTransition 1 (Transition_ctor tick 9) single = (True, fsm') \<and>
      map_of (m_stt fsm') (SttIndex 1 tick) = Some (Transition_ctor tick 9) \<and>
      m_states fsm' = m_states single)"
proof -
  have crash: "running dangling \<and> m_events dangling = [(tick, 0)] \<and>
      Map_at (m_states dangling) (m_current dangling) = Inr (light 1 True) \<and>
      lookup (m_stt dangling) (m_states dangling) (light 1 True) tick =
        Some (Inr (Some (Transition_ctor tick 9))) \<and>
      \<not> Map_contains (m_states dangling) (m_next (Transition_ctor tick 9 :: nat Transition))"
    by (simp add: running_def Map_at_def Map_contains_def lookup.simps dangling_defs)
  have closed: "\<forall>(key, row) \<in> set (m_stt (lights_raised True)).
      Map_contains (m_states (lights_raised True)) (m_next row)"
    by (simp add: Map_contains_def lights_defs)
  have fresh:
    "\<not> Map_contains (m_stt single) (SttIndex 1 (m_event (Transition_ctor tick 9 :: nat Transition)))"
    by (simp add: Map_contains_def single_def FsmBase_ctor_def)
  from C10_destination_unchecked [where ?fsm1.0 = dangling and event = tick and args = 0
      and queue = "[]" and state = "light 1 True" and row = "Transition_ctor tick 9"
      and ?fsm2.0 = "lights_raised True" and ?fsm3.0 = single and ?state3.0 = 1
      and ?row3.0 = "Transition_ctor tick 9"]
    crash closed fresh
  show ?thesis
    by (simp add: Transition_ctor_def)
qed

subsection \<open>Bulk registration\<close>

text \<open>
  C2 on the code: \<^verbatim>\<open>addStates\<close> is given the new state 2 followed by the state 1, which the
  engine already holds. It returns false, and state 2 stays registered.
\<close>

theorem C2_addStates_partial:
  "Map_contains (m_states single) 1 \<and> m_states single = [(1, light 1 True)] \<and>
   addStates [light 2 True, light 1 True] single =
     (False, single\<lparr>m_states := [(1, light 1 True), (2, light 2 True)]\<rparr>)"
  by (simp add: single_def builder_defs lights_defs)

text \<open>
  The sibling \<^verbatim>\<open>addStopStates\<close> is all-or-nothing: with an id that is not registered it
  returns false and leaves the engine as it was, and otherwise it appends the state of
  every id, in order, to the stop states.
\<close>

lemma addStopStates_check_iff:
  "addStopStates_check states fsm \<longleftrightarrow> list_all (Map_contains (m_states fsm)) states"
  by (induction states) simp_all

lemma addStopStates_rejects:
  "\<not> list_all (Map_contains (m_states fsm)) states \<Longrightarrow>
     addStopStates states fsm = Inr (False, fsm)"
  by (simp add: addStopStates_def addStopStates_check_iff)

lemma addStopStates_push_all:
  "list_all (Map_contains (m_states fsm)) states \<Longrightarrow>
     addStopStates_push states fsm =
       Inr (fsm\<lparr>m_stop_states :=
         m_stop_states fsm @ map (\<lambda>state. the (map_of (m_states fsm) state)) states\<rparr>)"
proof (induction states arbitrary: fsm)
  case Nil
  then show ?case
    by simp
next
  case (Cons state states)
  from Cons.prems obtain ptr where ptr: "map_of (m_states fsm) state = Some ptr"
    by (auto simp: Map_contains_def)
  let ?fsm = "fsm\<lparr>m_stop_states := m_stop_states fsm @ [ptr]\<rparr>"
  from Cons.prems have "list_all (Map_contains (m_states ?fsm)) states"
    by simp
  from Cons.IH [OF this] ptr show ?case
    by (simp add: Map_at_def)
qed

lemma addStopStates_accepts:
  "list_all (Map_contains (m_states fsm)) states \<Longrightarrow>
     addStopStates states fsm =
       Inr (True, fsm\<lparr>m_stop_states :=
         m_stop_states fsm @ map (\<lambda>state. the (map_of (m_states fsm) state)) states\<rparr>)"
  by (simp add: addStopStates_def addStopStates_check_iff addStopStates_push_all)

subsection \<open>Copy, move and swap\<close>

text \<open>
  \<^verbatim>\<open>copy\<close> takes eleven members from the other engine and keeps its own alphabet;
  \<^verbatim>\<open>swap\<close> leaves each engine its own alphabet.
\<close>

lemma copy_members:
  "m_stt (copy other this) = m_stt other \<and> m_events (copy other this) = m_events other \<and>
   m_states (copy other this) = m_states other \<and>
   m_stop_states (copy other this) = m_stop_states other \<and>
   m_start_state (copy other this) = m_start_state other \<and>
   m_current (copy other this) = m_current other \<and>
   m_error_state (copy other this) = m_error_state other \<and>
   m_status (copy other this) = m_status other \<and>
   m_in_transition (copy other this) = m_in_transition other \<and>
   m_logger (copy other this) = m_logger other \<and> m_silent (copy other this) = m_silent other"
  by (simp add: copy_def)

lemma copy_alphabet: "m_alphabet (copy other this) = m_alphabet this"
  by (simp add: copy_def)

lemma swap_alphabet:
  "m_alphabet (fst (swap a b)) = m_alphabet a \<and> m_alphabet (snd (swap a b)) = m_alphabet b"
  by (simp add: swap_def)

text \<open>
  C4 on the code: the traffic light has the alphabet {tick} and three rows on tick. Its
  copy by the copy constructor, the engine move-constructed from it and a fresh engine it
  is assigned to all hold the three rows and an empty alphabet.
\<close>

theorem C4_copy_leaves_alphabet:
  "m_alphabet (lights True) = [tick] \<and>
   m_stt (FsmBase_copy_ctor (lights True)) = m_stt (lights True) \<and>
   m_alphabet (FsmBase_copy_ctor (lights True)) = [] \<and>
   m_alphabet (copy_assign (lights True) (FsmBase_ctor False)) = [] \<and>
   m_stt (fst (FsmBase_move_ctor (lights True))) = m_stt (lights True) \<and>
   m_alphabet (fst (FsmBase_move_ctor (lights True))) = []"
  by (simp add: FsmBase_copy_ctor_def FsmBase_move_ctor_def copy_assign_def move_def
      swap_def copy_def FsmBase_default_def lights_defs)

subsection \<open>Validation\<close>

text \<open>
  The alphabet is a set, so the inner loop of \<^verbatim>\<open>deterministic\<close> meets each symbol once and
  the insertion into \<^verbatim>\<open>accepts\<close> always succeeds: on an alphabet without repetitions the
  answer false comes from a state with a handler that lacks a row, never from the branch
  that reports an epsilon transition. The operations that extend the alphabet keep it free
  of repetitions.
\<close>

lemma deterministic_symbols_False:
  assumes "deterministic_symbols fsm state symbols accepts = Some (Inr False)"
    and "distinct symbols" and "set symbols \<inter> set accepts = {}"
  shows "hasAction state \<and>
         (\<exists>symbol \<in> set symbols.
            lookup (m_stt fsm) (m_states fsm) state symbol = Some (Inr None))"
  using assms
proof (induction symbols arbitrary: accepts)
  case Nil
  then show ?case
    by simp
next
  case (Cons symbol symbols)
  show ?case
  proof (cases "lookup (m_stt fsm) (m_states fsm) state symbol = Some (Inr None)
      \<and> hasAction state")
    case True
    then show ?thesis
      by simp
  next
    case False
    with Cons.prems
    have "deterministic_symbols fsm state symbols (accepts @ [symbol]) = Some (Inr False)"
      by (auto simp: Set_insert_def split: option.splits sum.splits if_splits)
    moreover from Cons.prems
    have "distinct symbols" "set symbols \<inter> set (accepts @ [symbol]) = {}"
      by auto
    ultimately show ?thesis
      using Cons.IH by auto
  qed
qed

lemma deterministic_False:
  assumes "deterministic_states fsm states = Some (Inr False)"
    and "distinct (m_alphabet fsm)"
  shows "\<exists>(key, state) \<in> set states. hasAction state \<and>
           (\<exists>symbol \<in> set (m_alphabet fsm).
              lookup (m_stt fsm) (m_states fsm) state symbol = Some (Inr None))"
  using assms
proof (induction states)
  case Nil
  then show ?case
    by simp
next
  case (Cons entry states)
  obtain key state where entry: "entry = (key, state)"
    by (cases entry)
  show ?case
  proof (cases "deterministic_symbols fsm state (m_alphabet fsm) [] = Some (Inr True)")
    case True
    with Cons entry show ?thesis
      by auto
  next
    case False
    with Cons.prems entry
    have "deterministic_symbols fsm state (m_alphabet fsm) [] = Some (Inr False)"
      by (auto split: option.splits sum.splits bool.splits)
    from deterministic_symbols_False [OF this Cons.prems(2)] entry show ?thesis
      by auto
  qed
qed

lemma updateAlphabet_distinct:
  "distinct (m_alphabet fsm) \<Longrightarrow> distinct (m_alphabet (updateAlphabet row fsm))"
  by (simp add: updateAlphabet_def Set_contains_def Set_insert_def)

lemma addTransition_distinct:
  "distinct (m_alphabet fsm) \<Longrightarrow> distinct (m_alphabet (snd (addTransition state row fsm)))"
  by (simp add: addTransition_def Let_def updateAlphabet_distinct split: prod.splits)

lemma addAlphabetSymbol_distinct:
  "distinct (m_alphabet fsm) \<Longrightarrow> distinct (m_alphabet (snd (addAlphabetSymbol event fsm)))"
  by (simp add: addAlphabetSymbol_def Set_insert_def)

text \<open>
  C1 on the code: the engine of scenario S4, where B has the row (B, x) of its own and its
  parent A has the row (A, x). \<^verbatim>\<open>deterministic()\<close> returns true and \<^verbatim>\<open>start(true)\<close> starts the
  engine in A.
\<close>

theorem C1_shadowed_row_passes:
  "lookup (m_stt shadowed) (m_states shadowed) state_B sym_x =
     Some (Inr (Some (Transition_ctor sym_x 1))) \<and>
   lookup (m_stt shadowed) (m_states shadowed) state_A sym_x =
     Some (Inr (Some (Transition_ctor sym_x 2))) \<and>
   deterministic shadowed = Some (Inr True) \<and>
   start True shadowed = Some (Inr (shadowed\<lparr>m_current := 1, m_status := Running\<rparr>))"
  by (simp add: validation_defs shadowed_defs)

end
